theory Spec2Isabelle
  imports Complex_Main "HOL-Library.Char_ord" "HOL-Library.List_Lexorder"
    "HOL-Library.Log_Nat"
begin

section \<open>Sorting normalized date strings (src/utils/dates.ts, sortTimelineDates)\<close>

text \<open>
  Strings are character lists.  The default \<^verbatim>\<open>Array.prototype.sort\<close> of the host compares
  strings lexicographically by character code; this is the order \<open>List_Lexorder\<close> puts on
  \<^typ>\<open>string\<close> over the character order of \<open>Char_ord\<close>.  \<^verbatim>\<open>dateStr[0]\<close> of the empty
  string is \<^verbatim>\<open>undefined\<close>, which is not \<^verbatim>\<open>'-'\<close>; \<^verbatim>\<open>slice(1)\<close> drops one character.
\<close>

definition filterFunc :: "string \<Rightarrow> bool" where
  "filterFunc dateStr = (case dateStr of [] \<Rightarrow> False | c # _ \<Rightarrow> c = CHR ''-'')"

definition sortTimelineDates :: "string list \<Rightarrow> bool \<Rightarrow> string list" where
  "sortTimelineDates timelineDates sortDirection =
     (let negativeDatesUnsorted = filter filterFunc timelineDates;
          positiveDates = sort (filter (\<lambda>date. \<not> filterFunc date) timelineDates);
          strippedNegativeDates = rev (sort (map (drop 1) negativeDatesUnsorted))
      in if sortDirection
         then map (\<lambda>date. CHR ''-'' # date) strippedNegativeDates @ positiveDates
         else rev positiveDates @ map (\<lambda>date. CHR ''-'' # date) (rev strippedNegativeDates))"

section \<open>Host string and number primitives used by the parser\<close>

text \<open>
  Numbers that the parser handles are integers; they are modelled as unbounded
  \<^typ>\<open>int\<close>, exact as long as the host's doubles are (below \<open>2^53\<close>).  A possibly
  not-a-number result is an \<^typ>\<open>int option\<close> with \<open>None\<close> for NaN.  The one
  computation of the parser that leaves the integers, \<^verbatim>\<open>hour + (minute / 60)\<close>, is carried
  out in the host's double-precision arithmetic, where the quotient and the sum are each
  rounded; it is modelled with the rounding function \<open>roundToDouble\<close> below.
\<close>

definition isDigit :: "char \<Rightarrow> bool" where
  "isDigit ch = (ch \<in> set ''0123456789'')"

text \<open>\<^verbatim>\<open>s.substring(start, end)\<close>: both indices are clamped to \<open>[0, length]\<close> and swapped
  when out of order.\<close>

definition substring :: "string \<Rightarrow> int \<Rightarrow> int \<Rightarrow> string" where
  "substring s start fin =
     (let len = int (length s);
          finalStart = min (max start 0) len;
          finalEnd = min (max fin 0) len;
          from = min finalStart finalEnd;
          to = max finalStart finalEnd
      in take (nat (to - from)) (drop (nat from) s))"

definition digitVal :: "char \<Rightarrow> int" where
  "digitVal ch = int (of_char ch) - 48"

text \<open>\<^verbatim>\<open>parseInt\<close> on the strings the parser passes to it (decimal digits only): the value
  of the leading run of digits, NaN when there is none.\<close>

definition parseInt :: "string \<Rightarrow> int option" where
  "parseInt s =
     (let ds = takeWhile isDigit s
      in if ds = [] then None else Some (foldl (\<lambda>acc ch. 10 * acc + digitVal ch) 0 ds))"

text \<open>\<^verbatim>\<open>x || 0\<close> for a number \<open>x\<close>: NaN and 0 are falsy.\<close>

definition orZero :: "int option \<Rightarrow> int" where
  "orZero x = (case x of None \<Rightarrow> 0 | Some v \<Rightarrow> v)"

text \<open>
  IEEE 754 binary64 rounding of a real number: round to nearest, ties to even, with a
  significand of 53 bits.  For \<open>2^e \<le> \<bar>x\<bar> < 2^(e+1)\<close> the doubles around \<open>x\<close> are the
  multiples of \<open>2^(e-52)\<close>, and \<open>x\<close> is rounded to the nearest of them.  The exponent is
  not bounded here: overflow to infinity and subnormal numbers are left out, so the
  function is the host's rounding for magnitudes from \<open>2^-1022\<close> up to \<open>2^1024\<close> and for 0.
\<close>

definition pow2 :: "int \<Rightarrow> real" where
  "pow2 e = (if 0 \<le> e then 2 ^ nat e else 1 / 2 ^ nat (- e))"

definition roundHalfEven :: "real \<Rightarrow> int" where
  "roundHalfEven x =
     (let f = \<lfloor>x\<rfloor>;
          d = x - of_int f
      in if d < 1 / 2 then f
         else if 1 / 2 < d then f + 1
         else if even f then f else f + 1)"

text \<open>The exponent \<open>e\<close> with \<open>2^e \<le> x < 2^(e+1)\<close>, for a positive \<open>x\<close>.\<close>

definition binaryExponent :: "real \<Rightarrow> int" where
  "binaryExponent x = (if 1 \<le> x then bitlen \<lfloor>x\<rfloor> - 1 else - bitlen (\<lceil>1 / x\<rceil> - 1))"

definition roundToDouble :: "real \<Rightarrow> real" where
  "roundToDouble x =
     (if x = 0 then 0
      else
        let a = \<bar>x\<bar>;
            u = pow2 (binaryExponent a - 52)
        in sgn x * (u * of_int (roundHalfEven (a / u))))"

definition digitChar :: "nat \<Rightarrow> char" where
  "digitChar d = char_of (48 + d)"

fun natToString :: "nat \<Rightarrow> string" where
  "natToString n = (if n < 10 then [digitChar n] else natToString (n div 10) @ [digitChar (n mod 10)])"

declare natToString.simps [simp del]

definition toString :: "int \<Rightarrow> string" where
  "toString n = (if n < 0 then CHR ''-'' # natToString (nat (- n)) else natToString (nat n))"

definition padStart :: "string \<Rightarrow> nat \<Rightarrow> char \<Rightarrow> string" where
  "padStart s targetLength padChar = replicate (targetLength - length s) padChar @ s"

definition joinDash :: "string list \<Rightarrow> string" where
  "joinDash parts = (case parts of [] \<Rightarrow> [] | p # ps \<Rightarrow> foldl (\<lambda>acc q. acc @ ''-'' @ q) p ps)"

section \<open>The character-positional parser (src/utils/dates.ts)\<close>

record DateParsingConfig =
  yearLength :: int
  monthLength :: int
  dayLength :: int
  hourLength :: int
  minuteLength :: int

record CleanedDateResultObject =
  cleanedDateString :: string
  normalizedDateString :: string
  originalDateString :: string
  readableDateString :: string
  year :: int
  month :: int
  day :: int
  hour :: int

definition createDateResult ::
  "int \<Rightarrow> int \<Rightarrow> int \<Rightarrow> int \<Rightarrow> int \<Rightarrow> string \<Rightarrow> CleanedDateResultObject" where
  "createDateResult yr mon dy hr minute originalDateStr =
     (let hourWithMinutes = roundToDouble (real_of_int hr + roundToDouble (real_of_int minute / 60));
          normalizedDateStr =
            padStart (toString yr) 4 CHR ''0'' @ ''-'' @ padStart (toString mon) 2 CHR ''0'' @ ''-''
            @ padStart (toString dy) 2 CHR ''0'' @ ''-'' @ padStart (toString hr) 2 CHR ''0'';
          cleanedDateStr = normalizedDateStr;
          readableParts = [toString yr];
          readableParts =
            (if mon > 1 \<or> dy > 1 \<or> hr > 0 \<or> minute > 0
             then readableParts @ [padStart (toString mon) 2 CHR ''0''] else readableParts);
          readableParts =
            (if dy > 1 \<or> hr > 0 \<or> minute > 0
             then readableParts @ [padStart (toString dy) 2 CHR ''0''] else readableParts);
          readableParts =
            (if hr > 0 \<or> minute > 0
             then readableParts @ [padStart (toString hr) 2 CHR ''0''] else readableParts);
          readableDateStr = joinDash readableParts
      in \<lparr> cleanedDateString = cleanedDateStr,
           normalizedDateString = normalizedDateStr,
           originalDateString = originalDateStr,
           readableDateString = readableDateStr,
           year = yr,
           month = mon - 1,
           day = dy,
           hour = \<lfloor>hourWithMinutes\<rfloor> \<rparr>)"

definition parseSimplifiedDate ::
  "string \<Rightarrow> DateParsingConfig \<Rightarrow> bool \<Rightarrow> string \<Rightarrow> CleanedDateResultObject option" where
  "parseSimplifiedDate dateString config isEndDate eventType =
     (if dateString = [] then None
      else
        let cleanString = filter isDigit dateString;
            position = 0;
            yearStr = substring cleanString position (position + yearLength config)
        in if yearStr = [] then None
           else
             let position = position + yearLength config;
                 monthStr = substring cleanString position (position + monthLength config);
                 position = position + monthLength config;
                 dayStr = substring cleanString position (position + dayLength config);
                 position = position + dayLength config;
                 hourStr = substring cleanString position (position + hourLength config);
                 position = position + hourLength config;
                 minuteStr = substring cleanString position (position + minuteLength config);
                 yr = orZero (parseInt yearStr);
                 mon = orZero (parseInt monthStr);
                 dy = orZero (parseInt dayStr);
                 hr = orZero (parseInt hourStr);
                 minute = orZero (parseInt minuteStr)
             in if yr = 0 then None
                else if isEndDate \<and> eventType \<noteq> ''point'' \<and> monthStr = [] \<and> dayStr = []
                        \<and> hourStr = [] \<and> minuteStr = []
                then Some (createDateResult (yr + 1) 1 1 0 0 dateString)
                else
                  let mon = (if mon = 0 then 1 else mon);
                      dy = (if dy = 0 then 1 else dy)
                  in Some (createDateResult yr mon dy hr minute dateString))"

text \<open>The five slices of the cleaned digits, named as in the parser, for stating properties.\<close>

definition yearStrOf :: "DateParsingConfig \<Rightarrow> string \<Rightarrow> string" where
  "yearStrOf config dateString = substring (filter isDigit dateString) 0 (yearLength config)"

definition monthStrOf :: "DateParsingConfig \<Rightarrow> string \<Rightarrow> string" where
  "monthStrOf config dateString =
     substring (filter isDigit dateString) (yearLength config)
       (yearLength config + monthLength config)"

definition dayStrOf :: "DateParsingConfig \<Rightarrow> string \<Rightarrow> string" where
  "dayStrOf config dateString =
     substring (filter isDigit dateString) (yearLength config + monthLength config)
       (yearLength config + monthLength config + dayLength config)"

definition hourStrOf :: "DateParsingConfig \<Rightarrow> string \<Rightarrow> string" where
  "hourStrOf config dateString =
     substring (filter isDigit dateString)
       (yearLength config + monthLength config + dayLength config)
       (yearLength config + monthLength config + dayLength config + hourLength config)"

definition minuteStrOf :: "DateParsingConfig \<Rightarrow> string \<Rightarrow> string" where
  "minuteStrOf config dateString =
     substring (filter isDigit dateString)
       (yearLength config + monthLength config + dayLength config + hourLength config)
       (yearLength config + monthLength config + dayLength config + hourLength config
        + minuteLength config)"

text \<open>The default configuration (4,2,2,2,2) of src/constants.ts, which the documented
  scenarios and the test runner use.\<close>

definition DEFAULT_DATE_PARSING_CONFIG :: DateParsingConfig where
  "DEFAULT_DATE_PARSING_CONFIG = \<lparr> yearLength = 4, monthLength = 2, dayLength = 2, hourLength = 2, minuteLength = 2 \<rparr>"

text \<open>The configuration (4,0,0,0,2): no month, day or hour digits, two minute digits.\<close>

definition minuteOnlyConfig :: DateParsingConfig where
  "minuteOnlyConfig = \<lparr> yearLength = 4, monthLength = 0, dayLength = 0, hourLength = 0, minuteLength = 2 \<rparr>"

text \<open>The configuration (4,2,2,15,2): an hour slice of fifteen digits.\<close>

definition wideHourConfig :: DateParsingConfig where
  "wideHourConfig = \<lparr> yearLength = 4, monthLength = 2, dayLength = 2, hourLength = 15, minuteLength = 2 \<rparr>"

text \<open>The cleaned digits cut off where the minute slice starts: the same date with the
  minute digits (and anything after them) absent.\<close>

definition withoutMinuteDigits :: "DateParsingConfig \<Rightarrow> string \<Rightarrow> string" where
  "withoutMinuteDigits config dateString =
     take (nat (yearLength config + monthLength config + dayLength config + hourLength config))
       (filter isDigit dateString)"

text \<open>The numeric components of a result: year, month (0-indexed), day, hour.\<close>

definition numericComponents :: "CleanedDateResultObject \<Rightarrow> int \<times> int \<times> int \<times> int" where
  "numericComponents r = (year r, month r, day r, hour r)"

section \<open>The host calendar\<close>

text \<open>
  A \<^verbatim>\<open>Date\<close> object holds a time value: an integral number of milliseconds since the
  epoch, at most \<open>8.64 \<times> 10^15\<close> in absolute value, or NaN (an invalid date).  It is
  modelled as \<^typ>\<open>int option\<close>, \<open>None\<close> being NaN.  The day and year arithmetic is that of
  the language standard (\<^verbatim>\<open>DayFromYear\<close>, \<^verbatim>\<open>YearFromTime\<close>, \<^verbatim>\<open>MakeDay\<close>, \<^verbatim>\<open>MakeDate\<close>,
  \<^verbatim>\<open>TimeClip\<close>).  Local time is UTC plus a constant offset \<open>tz\<close> in milliseconds, a
  parameter of every function that reads or builds local time.
\<close>

type_synonym Date = "int option"

definition msPerDay :: int where
  "msPerDay = 86400000"

definition msPerHour :: int where
  "msPerHour = 3600000"

definition DayFromYear :: "int \<Rightarrow> int" where
  "DayFromYear y = 365 * (y - 1970) + (y - 1969) div 4 - (y - 1901) div 100 + (y - 1601) div 400"

definition TimeFromYear :: "int \<Rightarrow> int" where
  "TimeFromYear y = msPerDay * DayFromYear y"

definition DaysInYear :: "int \<Rightarrow> int" where
  "DaysInYear y =
     (if y mod 4 \<noteq> 0 then 365 else if y mod 100 \<noteq> 0 then 366
      else if y mod 400 \<noteq> 0 then 365 else 366)"

text \<open>\<^verbatim>\<open>YearFromTime(t)\<close> is the largest \<open>y\<close> with \<open>TimeFromYear y \<le> t\<close>.  It is computed
  from the estimate \<open>1970 + \<lfloor>day / 365.2425\<rfloor>\<close>, which is off by at most one
  (lemma \<open>YearFromTime_ge_iff\<close> below shows that the result is that largest year).\<close>

definition YearFromTime :: "int \<Rightarrow> int" where
  "YearFromTime t =
     (let d = t div msPerDay;
          y = 1970 + (d * 10000) div 3652425
      in if d < DayFromYear y then y - 1
         else if DayFromYear (y + 1) \<le> d then y + 1
         else y)"

text \<open>Days of the year before month \<open>m\<close> (0-indexed), and the length of month \<open>m\<close>
  (1-indexed, as the calendar-formatting library counts).\<close>

definition daysBeforeMonth :: "int \<Rightarrow> int \<Rightarrow> int" where
  "daysBeforeMonth y m =
     [0, 31, 59, 90, 120, 151, 181, 212, 243, 273, 304, 334] ! nat m
     + (if 2 \<le> m \<and> DaysInYear y = 366 then 1 else 0)"

definition daysInMonth :: "int \<Rightarrow> int \<Rightarrow> int" where
  "daysInMonth y m =
     (if m = 2 then (if DaysInYear y = 366 then 29 else 28)
      else [31, 28, 31, 30, 31, 30, 31, 31, 30, 31, 30, 31] ! nat (m - 1))"

definition MakeDay :: "int \<Rightarrow> int \<Rightarrow> int \<Rightarrow> int" where
  "MakeDay yr mon date =
     (let ym = yr + mon div 12;
          mn = mon mod 12
      in DayFromYear ym + daysBeforeMonth ym mn + date - 1)"

definition MakeDate :: "int \<Rightarrow> int \<Rightarrow> int" where
  "MakeDate dy time = dy * msPerDay + time"

definition TimeClip :: "int \<Rightarrow> Date" where
  "TimeClip t = (if \<bar>t\<bar> > 8640000000000000 then None else Some t)"

text \<open>\<^verbatim>\<open>new Date(year, month, day, hour)\<close>: the local time with these components (a year
  in 0..99 means 1900 + year; month, day and hour overflow into the next unit).\<close>

definition newDate :: "int \<Rightarrow> int \<Rightarrow> int \<Rightarrow> int \<Rightarrow> int \<Rightarrow> Date" where
  "newDate tz yr mon dy hr =
     (let yr = (if 0 \<le> yr \<and> yr \<le> 99 then 1900 + yr else yr)
      in TimeClip (MakeDate (MakeDay yr mon dy) (hr * msPerHour) - tz))"

text \<open>\<^verbatim>\<open>new Date(ms)\<close> for a number that may be NaN.\<close>

definition newDateMs :: "int option \<Rightarrow> Date" where
  "newDateMs ms = (case ms of None \<Rightarrow> None | Some t \<Rightarrow> TimeClip t)"

definition getTime :: "Date \<Rightarrow> int option" where
  "getTime d = d"

text \<open>\<^verbatim>\<open>date.getFullYear()\<close>: the year of the local time, NaN for an invalid date.\<close>

definition getFullYear :: "int \<Rightarrow> Date \<Rightarrow> int option" where
  "getFullYear tz d = (case d of None \<Rightarrow> None | Some t \<Rightarrow> Some (YearFromTime (t + tz)))"

section \<open>The calendar date builder (src/utils/dates.ts, buildTimelineDate)\<close>

text \<open>
  For a year in \<open>[0, 1900]\<close> the builder formats the components as \<^verbatim>\<open>YYYY-MM-DD-HH\<close>, has
  the calendar-formatting library read the token back with the format \<^verbatim>\<open>y-M-d-H\<close>, and
  builds the date from the ISO string of the result.  The library rejects a day beyond
  the length of the month (its result is then invalid and has no ISO string, \<^verbatim>\<open>null\<close>);
  for a valid token, the ISO string denotes the local time with the components read.
  \<open>luxonToISO\<close> is this round trip, with \<open>None\<close> for \<^verbatim>\<open>null\<close> and otherwise the time value
  that \<^verbatim>\<open>new Date(isoString)\<close> yields.
\<close>

definition luxonToISO :: "int \<Rightarrow> int \<Rightarrow> int \<Rightarrow> int \<Rightarrow> int \<Rightarrow> Date option" where
  "luxonToISO tz yr mon dy hr =
     (if 1 \<le> mon \<and> mon \<le> 12 \<and> 1 \<le> dy \<and> dy \<le> daysInMonth yr mon \<and> 0 \<le> hr \<and> hr \<le> 23
      then Some (TimeClip (MakeDate (MakeDay yr (mon - 1) dy) (hr * msPerHour) - tz))
      else None)"

definition buildTimelineDate :: "int \<Rightarrow> CleanedDateResultObject option \<Rightarrow> Date option" where
  "buildTimelineDate tz dateResult =
     (case dateResult of
        None \<Rightarrow> None
      | Some r \<Rightarrow>
          if year r = 0 then None
          else if month r < 0 \<or> month r > 11 then None
          else if day r < 1 \<or> day r > 31 then None
          else if hour r < 0 \<or> hour r > 23 then None
          else
            let returnDate =
                  (if year r < 0 \<or> year r > 1900
                   then Some (newDate tz (year r) (month r) (day r) (hour r))
                   else luxonToISO tz (year r) (month r + 1) (day r) (hour r))
            in (case returnDate of
                  None \<Rightarrow> None
                | Some d \<Rightarrow> if getTime d = None then None else Some d))"

text \<open>A parsed date with the given numeric components (the strings play no role in the
  builder).\<close>

definition components :: "int \<Rightarrow> int \<Rightarrow> int \<Rightarrow> int \<Rightarrow> CleanedDateResultObject" where
  "components yr mon dy hr =
     \<lparr> cleanedDateString = [], normalizedDateString = [], originalDateString = [],
       readableDateString = [], year = yr, month = mon, day = dy, hour = hr \<rparr>"

section \<open>The viewport sanitizer (src/timelines/horizontal.ts, lines 317--388)\<close>

text \<open>
  The zoom limits are numbers of the host: NaN, the two infinities, or a finite value,
  modelled as a real (rounding is abstracted away).  Comparisons with NaN are false.
\<close>

datatype jsnum = NaN | Fin real | PosInf | NegInf

definition isFiniteNum :: "jsnum \<Rightarrow> bool" where
  "isFiniteNum x = (case x of Fin _ \<Rightarrow> True | _ \<Rightarrow> False)"

fun numLe :: "jsnum \<Rightarrow> jsnum \<Rightarrow> bool" where
  "numLe NaN _ = False"
| "numLe _ NaN = False"
| "numLe NegInf _ = True"
| "numLe _ PosInf = True"
| "numLe (Fin a) (Fin b) = (a \<le> b)"
| "numLe _ _ = False"

fun numLess :: "jsnum \<Rightarrow> jsnum \<Rightarrow> bool" where
  "numLess NaN _ = False"
| "numLess _ NaN = False"
| "numLess (Fin a) (Fin b) = (a < b)"
| "numLess NegInf NegInf = False"
| "numLess NegInf _ = True"
| "numLess PosInf _ = False"
| "numLess (Fin a) PosInf = True"
| "numLess (Fin a) NegInf = False"

text \<open>Multiplication by a positive finite constant.\<close>

definition numTimes :: "jsnum \<Rightarrow> real \<Rightarrow> jsnum" where
  "numTimes x k = (case x of Fin a \<Rightarrow> Fin (a * k) | other \<Rightarrow> other)"

text \<open>Arithmetic and comparison on time values that may be NaN.\<close>

definition tvGe :: "int option \<Rightarrow> int option \<Rightarrow> bool" where
  "tvGe a b = (case (a, b) of (Some x, Some y) \<Rightarrow> x \<ge> y | _ \<Rightarrow> False)"

definition tvShift :: "int option \<Rightarrow> int \<Rightarrow> int option" where
  "tvShift a k = (case a of None \<Rightarrow> None | Some x \<Rightarrow> Some (x + k))"

definition tvDiff :: "int option \<Rightarrow> int option \<Rightarrow> int option" where
  "tvDiff a b = (case (a, b) of (Some x, Some y) \<Rightarrow> Some (x - y) | _ \<Rightarrow> None)"

definition tvLess :: "int option \<Rightarrow> int \<Rightarrow> bool" where
  "tvLess a k = (case a of None \<Rightarrow> False | Some x \<Rightarrow> x < k)"

definition tvGreater :: "int option \<Rightarrow> int \<Rightarrow> bool" where
  "tvGreater a k = (case a of None \<Rightarrow> False | Some x \<Rightarrow> x > k)"

text \<open>The options handed to the render boundary.  A date field may be absent
  (\<^verbatim>\<open>undefined\<close>), which the guards of the sanitizer test for.\<close>

record TimelineOptions =
  opt_start :: "Date option"
  opt_end :: "Date option"
  opt_min :: "Date option"
  opt_max :: "Date option"
  zoomMax :: jsnum
  zoomMin :: jsnum

definition oneYear :: int where
  "oneYear = 365 * 24 * 60 * 60 * 1000"

text \<open>Lines 318--340.  One round of the loop over \<^verbatim>\<open>['start', 'end', 'min', 'max']\<close>;
  \<open>lower\<close> says that the field is \<^verbatim>\<open>start\<close> or \<^verbatim>\<open>min\<close>.  Both tests read the date the
  field held on entry.\<close>

definition validateDateField :: "int \<Rightarrow> bool \<Rightarrow> Date option \<Rightarrow> Date option" where
  "validateDateField tz lower field =
     (let date = field;
          fallback = (if lower then newDate tz 2000 0 1 0 else newDate tz 2030 0 1 0);
          field = (case date of
                     None \<Rightarrow> field
                   | Some d \<Rightarrow> if getTime d = None then Some fallback else field);
          field = (case date of
                     None \<Rightarrow> field
                   | Some d \<Rightarrow>
                       (case getFullYear tz d of
                          None \<Rightarrow> field
                        | Some yr \<Rightarrow> if yr < 1900 \<or> yr > 2100 then Some fallback else field))
      in field)"

definition validateDateFields :: "int \<Rightarrow> TimelineOptions \<Rightarrow> TimelineOptions" where
  "validateDateFields tz options =
     options \<lparr> opt_start := validateDateField tz True (opt_start options),
               opt_end := validateDateField tz False (opt_end options),
               opt_min := validateDateField tz True (opt_min options),
               opt_max := validateDateField tz False (opt_max options) \<rparr>"

text \<open>Lines 343--346: if start is not before end, end becomes start plus one year.\<close>

definition ensureStartBeforeEnd :: "TimelineOptions \<Rightarrow> TimelineOptions" where
  "ensureStartBeforeEnd options =
     (case (opt_start options, opt_end options) of
        (Some s, Some e) \<Rightarrow>
          if tvGe (getTime s) (getTime e)
          then options \<lparr> opt_end := Some (newDateMs (tvShift (getTime s) oneYear)) \<rparr>
          else options
      | _ \<Rightarrow> options)"

text \<open>Lines 348--355: if min is not before max, min becomes max minus ten years.\<close>

definition ensureMinBeforeMax :: "TimelineOptions \<Rightarrow> TimelineOptions" where
  "ensureMinBeforeMax options =
     (case (opt_min options, opt_max options) of
        (Some mn, Some mx) \<Rightarrow>
          if tvGe (getTime mn) (getTime mx)
          then (if tvGe (getTime mn) (getTime mx)
                then options \<lparr> opt_min := Some (newDateMs (tvShift (getTime mx) (- (10 * oneYear)))) \<rparr>
                else options)
          else options
      | _ \<Rightarrow> options)"

text \<open>Lines 358--371: the span from min to max, computed once, is tested against one year
  and against one hundred years.\<close>

definition ensureReasonableSpan :: "TimelineOptions \<Rightarrow> TimelineOptions" where
  "ensureReasonableSpan options =
     (case (opt_min options, opt_max options) of
        (Some mn, Some mx) \<Rightarrow>
          let timeDiff = tvDiff (getTime mx) (getTime mn);
              options =
                (if tvLess timeDiff oneYear
                 then options \<lparr> opt_min := Some (newDateMs (tvShift (getTime mx) (- (10 * oneYear)))) \<rparr>
                 else options);
              options =
                (if tvGreater timeDiff (100 * oneYear)
                 then options \<lparr> opt_min := Some (newDateMs (tvShift (getTime mx) (- (50 * oneYear)))) \<rparr>
                 else options)
          in options
      | _ \<Rightarrow> options)"

text \<open>Lines 374--388: the zoom limits.\<close>

definition validateZoomLimits :: "TimelineOptions \<Rightarrow> TimelineOptions" where
  "validateZoomLimits options =
     (let options =
            (if \<not> isFiniteNum (zoomMax options) \<or> numLe (zoomMax options) (Fin 0)
             then options \<lparr> zoomMax := Fin 315360000000000 \<rparr> else options);
          options =
            (if \<not> isFiniteNum (zoomMin options) \<or> numLe (zoomMin options) (Fin 0)
             then options \<lparr> zoomMin := Fin 10 \<rparr> else options);
          options =
            (if numLe (zoomMax options) (zoomMin options)
             then options \<lparr> zoomMax := numTimes (zoomMin options) 1000 \<rparr> else options)
      in options)"

text \<open>The five steps in the order of the source.\<close>

definition sanitizeViewport :: "int \<Rightarrow> TimelineOptions \<Rightarrow> TimelineOptions" where
  "sanitizeViewport tz options =
     validateZoomLimits
       (ensureReasonableSpan (ensureMinBeforeMax (ensureStartBeforeEnd (validateDateFields tz options))))"

section \<open>The type validator (src/utils/dates.ts, validateTimelineType)\<close>

definition validateTimelineType :: "string option \<Rightarrow> string" where
  "validateTimelineType ty =
     (case ty of
        None \<Rightarrow> ''box''
      | Some t \<Rightarrow>
          if t = [] then ''box''
          else
            let normalizedType = (if take 4 t = ''vis-'' then drop 4 t else t)
            in if normalizedType \<in> set [''box'', ''point'', ''range'', ''background'']
               then normalizedType else ''box'')"

section \<open>The item assembler (src/timelines/horizontal.ts, lines 79--225)\<close>

text \<open>
  The body of the loop over the events of a date, without the construction of the card
  element, the colour and the group, which do not influence the dates.  \<open>None\<close> is an
  early \<^verbatim>\<open>return\<close>: the event is not added to the item set.  \<open>currentYear\<close> is the host
  clock's \<^verbatim>\<open>new Date().getFullYear()\<close>.  A comparison with a not-a-number year is false.
\<close>

record CardContainer =
  ev_startDate :: CleanedDateResultObject
  ev_endDate :: CleanedDateResultObject
  ev_type :: "string option"

record EventItem =
  item_start :: Date
  item_end :: "Date option"
  item_type :: string

definition assembleItem :: "int \<Rightarrow> int \<Rightarrow> CardContainer \<Rightarrow> EventItem option" where
  "assembleItem tz currentYear event =
     (let endD = None;
          ty = validateTimelineType (ev_type event);
          typeOverride = False;
          start = buildTimelineDate tz (Some (ev_startDate event))
      in case start of
           None \<Rightarrow> None
         | Some startD \<Rightarrow>
             let (endD, ty, typeOverride) =
                   (if normalizedDateString (ev_endDate event) \<noteq> []
                    then (buildTimelineDate tz (Some (ev_endDate event)), ty, typeOverride)
                    else (endD, validateTimelineType (Some ''point''), True))
             in if endD = Some None then None
                else
                  let itemType = validateTimelineType (if typeOverride then Some ty else ev_type event)
                  in if getTime startD = None then None
                     else
                       let endD = (case endD of
                                     None \<Rightarrow> None
                                   | Some e \<Rightarrow> if getTime e = None then None else endD);
                           endD = (case endD of
                                     None \<Rightarrow> None
                                   | Some e \<Rightarrow> if tvGe (getTime startD) (getTime e) then None else endD)
                       in if (case getFullYear tz startD of
                                None \<Rightarrow> False
                              | Some startYear \<Rightarrow> startYear < 1 \<or> startYear > currentYear + 1000)
                          then None
                          else
                            let endD =
                                  (case endD of
                                     None \<Rightarrow> None
                                   | Some e \<Rightarrow>
                                       (case getFullYear tz e of
                                          None \<Rightarrow> endD
                                        | Some endYear \<Rightarrow>
                                            if endYear < 1 \<or> endYear > currentYear + 1000
                                            then None else endD))
                            in Some \<lparr> item_start = startD, item_end = endD, item_type = itemType \<rparr>)"

text \<open>An event with the given numeric components for start and end; the end carries a
  non-empty normalized string, so that it counts as present.\<close>

definition eventOf ::
  "CleanedDateResultObject \<Rightarrow> CleanedDateResultObject \<Rightarrow> string option \<Rightarrow> CardContainer" where
  "eventOf s e ty =
     \<lparr> ev_startDate = s, ev_endDate = e \<lparr> normalizedDateString := ''end'' \<rparr>, ev_type = ty \<rparr>"

section \<open>The default argument builder (src/utils/arguments.ts, setDefaultArgs)\<close>

text \<open>
  \<open>currentYear\<close> is the host clock's \<^verbatim>\<open>new Date().getFullYear()\<close>, a parameter.  Of the
  constant \<^verbatim>\<open>DEFAULT_SETTINGS\<close> (src/constants.ts) the builder reads the vertical date
  display format, which is the empty string.
\<close>

definition DEFAULT_verticalTimelineDateDisplayFormat :: string where
  "DEFAULT_verticalTimelineDateDisplayFormat = []"

record TimelinesSettings =
  verticalTimelineDateDisplayFormat :: string
  dateParsingConfig :: DateParsingConfig

record ParsedTagObject =
  tagList :: "string list"
  optionalTags :: "string list"

record InternalTimelineArgs =
  tags :: ParsedTagObject
  dateFormat :: string
  divHeight :: int
  startDate :: Date
  endDate :: Date
  minDate :: Date
  maxDate :: Date
  args_type :: "string option"
  zoomOutLimit :: jsnum
  zoomInLimit :: jsnum

definition setDefaultArgs :: "int \<Rightarrow> int \<Rightarrow> TimelinesSettings \<Rightarrow> InternalTimelineArgs" where
  "setDefaultArgs tz currentYear settings =
     (let defaultVerticalDateFormat = DEFAULT_verticalTimelineDateDisplayFormat;
          dateFormatFromSettings = verticalTimelineDateDisplayFormat settings;
          useNewDefaultFormat = (dateFormatFromSettings \<noteq> defaultVerticalDateFormat);
          startYear = max 1900 (currentYear - 50);
          endYear = currentYear + 50;
          minYear = max 1800 (currentYear - 100);
          maxYear = currentYear + 100;
          startDateResult = parseSimplifiedDate (toString startYear) (dateParsingConfig settings) False ''box'';
          endDateResult = parseSimplifiedDate (toString endYear) (dateParsingConfig settings) False ''box'';
          minDateResult = parseSimplifiedDate (toString minYear) (dateParsingConfig settings) False ''box'';
          maxDateResult = parseSimplifiedDate (toString maxYear) (dateParsingConfig settings) False ''box'';
          safeStartDate = (case buildTimelineDate tz startDateResult of
                             Some d \<Rightarrow> d | None \<Rightarrow> newDate tz startYear 0 1 0);
          safeEndDate = (case buildTimelineDate tz endDateResult of
                           Some d \<Rightarrow> d | None \<Rightarrow> newDate tz endYear 0 1 0);
          safeMinDate = (case buildTimelineDate tz minDateResult of
                           Some d \<Rightarrow> d | None \<Rightarrow> newDate tz minYear 0 1 0);
          safeMaxDate = (case buildTimelineDate tz maxDateResult of
                           Some d \<Rightarrow> d | None \<Rightarrow> newDate tz maxYear 0 1 0)
      in \<lparr> tags = \<lparr> tagList = [], optionalTags = [] \<rparr>,
           dateFormat = (if useNewDefaultFormat then dateFormatFromSettings else defaultVerticalDateFormat),
           divHeight = 400,
           startDate = safeStartDate,
           endDate = safeEndDate,
           minDate = safeMinDate,
           maxDate = safeMaxDate,
           args_type = None,
           zoomOutLimit = Fin 315360000000001,
           zoomInLimit = Fin 10 \<rparr>)"

text \<open>Settings with the given five widths.\<close>

definition settingsOf :: "int \<Rightarrow> int \<Rightarrow> int \<Rightarrow> int \<Rightarrow> int \<Rightarrow> TimelinesSettings" where
  "settingsOf yl ml dl hl minl =
     \<lparr> verticalTimelineDateDisplayFormat = ''YYYY-MM-DD'',
       dateParsingConfig = \<lparr> yearLength = yl, monthLength = ml, dayLength = dl, hourLength = hl,
                              minuteLength = minl \<rparr> \<rparr>"

text \<open>The options that the render pass builds from the arguments when no smart viewport
  replaces the window (lines 240--286).\<close>

definition optionsOfArgs :: "InternalTimelineArgs \<Rightarrow> TimelineOptions" where
  "optionsOfArgs args =
     \<lparr> opt_start = Some (startDate args), opt_end = Some (endDate args),
       opt_min = Some (minDate args), opt_max = Some (maxDate args),
       zoomMax = zoomOutLimit args, zoomMin = zoomInLimit args \<rparr>"

section \<open>Notions used to state the properties\<close>

text \<open>A host time zone offset of at most one day in either direction.\<close>

definition okTz :: "int \<Rightarrow> bool" where
  "okTz tz = (\<bar>tz\<bar> \<le> msPerDay)"

text \<open>The time values whose local year lies in \<open>[1900, 2100]\<close>, and the value a date field
  holds after one round of the validation loop: the time value itself when it is valid
  and in that range, otherwise 1 January 2000 or 2030, 0:00 local time.\<close>

definition inRange :: "int \<Rightarrow> int \<Rightarrow> bool" where
  "inRange tz t = (TimeFromYear 1900 \<le> t + tz \<and> t + tz < TimeFromYear 2101)"

definition cleanValue :: "int \<Rightarrow> bool \<Rightarrow> Date \<Rightarrow> int" where
  "cleanValue tz lower d =
     (case d of
        Some t \<Rightarrow> if inRange tz t then t
                  else (if lower then 946684800000 else 1893456000000) - tz
      | None \<Rightarrow> (if lower then 946684800000 else 1893456000000) - tz)"

text \<open>The fields of the sanitizer's result, each in terms of the fields it depends on.\<close>

definition sanitizedEnd :: "int \<Rightarrow> Date option \<Rightarrow> Date option \<Rightarrow> Date option" where
  "sanitizedEnd tz s e =
     (case (validateDateField tz True s, validateDateField tz False e) of
        (Some s', Some e') \<Rightarrow>
          if tvGe (getTime s') (getTime e') then Some (newDateMs (tvShift (getTime s') oneYear))
          else Some e'
      | (_, e') \<Rightarrow> e')"

definition reorderedMin :: "Date option \<Rightarrow> Date option \<Rightarrow> Date option" where
  "reorderedMin mn mx =
     (case (mn, mx) of
        (Some mn', Some mx') \<Rightarrow>
          if tvGe (getTime mn') (getTime mx')
          then Some (newDateMs (tvShift (getTime mx') (- (10 * oneYear))))
          else mn
      | _ \<Rightarrow> mn)"

definition spannedMin :: "Date option \<Rightarrow> Date option \<Rightarrow> Date option" where
  "spannedMin mn mx =
     (case (mn, mx) of
        (Some mn', Some mx') \<Rightarrow>
          if tvGreater (tvDiff (getTime mx') (getTime mn')) (100 * oneYear)
          then Some (newDateMs (tvShift (getTime mx') (- (50 * oneYear))))
          else if tvLess (tvDiff (getTime mx') (getTime mn')) oneYear
          then Some (newDateMs (tvShift (getTime mx') (- (10 * oneYear))))
          else mn
      | _ \<Rightarrow> mn)"

text \<open>The lower pannable bound after the ordering and span steps, on valid time values.\<close>

definition minOf :: "int \<Rightarrow> int \<Rightarrow> int" where
  "minOf mn mx =
     (let mn1 = (if mn \<ge> mx then mx - 10 * oneYear else mn)
      in if mx - mn1 > 100 * oneYear then mx - 50 * oneYear
         else if mx - mn1 < oneYear then mx - 10 * oneYear
         else mn1)"

definition sanitizedMin :: "int \<Rightarrow> Date option \<Rightarrow> Date option \<Rightarrow> Date option" where
  "sanitizedMin tz mn mx =
     spannedMin (reorderedMin (validateDateField tz True mn) (validateDateField tz False mx))
       (validateDateField tz False mx)"

definition sanitizedZoomMin :: "jsnum \<Rightarrow> jsnum" where
  "sanitizedZoomMin zn = (if \<not> isFiniteNum zn \<or> numLe zn (Fin 0) then Fin 10 else zn)"

definition sanitizedZoomMax :: "jsnum \<Rightarrow> jsnum \<Rightarrow> jsnum" where
  "sanitizedZoomMax zx zn =
     (let zx' = (if \<not> isFiniteNum zx \<or> numLe zx (Fin 0) then Fin 315360000000000 else zx)
      in if numLe zx' (sanitizedZoomMin zn) then numTimes (sanitizedZoomMin zn) 1000 else zx')"

text \<open>The bounds the builder tests on the components of a parsed date.\<close>

definition inBounds :: "CleanedDateResultObject \<Rightarrow> bool" where
  "inBounds r =
     (year r \<noteq> 0 \<and> 0 \<le> month r \<and> month r \<le> 11 \<and> 1 \<le> day r \<and> day r \<le> 31
      \<and> 0 \<le> hour r \<and> hour r \<le> 23)"

text \<open>The local time value of the given components (month 0-indexed), before the shift
  to UTC and before clipping.\<close>

definition localTimeValue :: "int \<Rightarrow> int \<Rightarrow> int \<Rightarrow> int \<Rightarrow> int" where
  "localTimeValue yr mon dy hr =
     (DayFromYear yr + daysBeforeMonth yr mon + dy - 1) * msPerDay + hr * msPerHour"

section \<open>Properties of the sort\<close>

lemma filterFunc_Cons_minus: "filterFunc (CHR ''-'' # date)"
  by (simp add: filterFunc_def)

lemma sortTimelineDates_asc_split:
  "sortTimelineDates ds True =
     map (\<lambda>date. CHR ''-'' # date) (rev (sort (map (drop 1) (filter filterFunc ds))))
     @ sort (filter (\<lambda>date. \<not> filterFunc date) ds)"
  by (simp add: sortTimelineDates_def)

lemma sortTimelineDates_desc_split:
  "sortTimelineDates ds False =
     rev (sort (filter (\<lambda>date. \<not> filterFunc date) ds))
     @ map (\<lambda>date. CHR ''-'' # date) (sort (map (drop 1) (filter filterFunc ds)))"
  by (simp add: sortTimelineDates_def)

lemma append_partition_index:
  assumes "\<forall>x \<in> set ns. P x" and "\<forall>x \<in> set ps. \<not> P x"
    and "i < length (ns @ ps)" and "j < length (ns @ ps)"
    and "P ((ns @ ps) ! i)" and "\<not> P ((ns @ ps) ! j)"
  shows "i < j"
proof -
  have i: "i < length ns"
  proof (rule ccontr)
    assume "\<not> i < length ns"
    with assms(3) have "(ns @ ps) ! i \<in> set ps"
      by (simp add: nth_append)
    with assms(2,5) show False by blast
  qed
  have j: "length ns \<le> j"
  proof (rule ccontr)
    assume "\<not> length ns \<le> j"
    then have "(ns @ ps) ! j \<in> set ns"
      by (simp add: nth_append)
    with assms(1,6) show False by blast
  qed
  from i j show ?thesis by simp
qed

text \<open>
  Claim C10.  For every list of date strings, the descending sort is exactly the reverse of
  the ascending sort of the same list, and in the ascending result every string that
  starts with \<^verbatim>\<open>-\<close> stands before every string that does not: whenever position \<open>i\<close>
  holds a negative-prefixed string and position \<open>j\<close> holds one without the prefix,
  \<open>i < j\<close>.
\<close>

theorem sortTimelineDates_reverse_and_negatives_first:
  "sortTimelineDates ds False = rev (sortTimelineDates ds True)
   \<and> (\<forall>i j. i < length (sortTimelineDates ds True) \<and> j < length (sortTimelineDates ds True)
          \<and> filterFunc (sortTimelineDates ds True ! i)
          \<and> \<not> filterFunc (sortTimelineDates ds True ! j) \<longrightarrow> i < j)"
proof (intro conjI allI impI)
  show "sortTimelineDates ds False = rev (sortTimelineDates ds True)"
    by (simp add: sortTimelineDates_asc_split sortTimelineDates_desc_split rev_map)
next
  fix i j
  let ?ns = "map (\<lambda>date. CHR ''-'' # date) (rev (sort (map (drop 1) (filter filterFunc ds))))"
  let ?ps = "sort (filter (\<lambda>date. \<not> filterFunc date) ds)"
  assume a: "i < length (sortTimelineDates ds True) \<and> j < length (sortTimelineDates ds True)
          \<and> filterFunc (sortTimelineDates ds True ! i)
          \<and> \<not> filterFunc (sortTimelineDates ds True ! j)"
  have ns: "\<forall>x \<in> set ?ns. filterFunc x"
    by (auto simp: filterFunc_Cons_minus)
  have ps: "\<forall>x \<in> set ?ps. \<not> filterFunc x"
    by simp
  from a show "i < j"
    unfolding sortTimelineDates_asc_split
    using append_partition_index [OF ns ps] by blast
qed

theorem sortTimelineDates_reverse_and_negatives_first_witness:
  "sortTimelineDates [''2025-01-01-00'', ''-0050-01-01-00'', ''1999-12-31-00'', ''-0500-01-01-00''] True
     = [''-0500-01-01-00'', ''-0050-01-01-00'', ''1999-12-31-00'', ''2025-01-01-00'']
   \<and> sortTimelineDates [''2025-01-01-00'', ''-0050-01-01-00'', ''1999-12-31-00'', ''-0500-01-01-00''] False
     = [''2025-01-01-00'', ''1999-12-31-00'', ''-0050-01-01-00'', ''-0500-01-01-00'']"
proof -
  have asc: "sortTimelineDates [''2025-01-01-00'', ''-0050-01-01-00'', ''1999-12-31-00'', ''-0500-01-01-00''] True
     = [''-0500-01-01-00'', ''-0050-01-01-00'', ''1999-12-31-00'', ''2025-01-01-00'']"
    by code_simp
  show ?thesis
    using sortTimelineDates_reverse_and_negatives_first
      [of "[''2025-01-01-00'', ''-0050-01-01-00'', ''1999-12-31-00'', ''-0500-01-01-00'']"]
    by (simp add: asc)
qed

section \<open>Properties of the parser\<close>

lemma substring_Nil [simp]: "substring [] a b = []"
  by (simp add: substring_def Let_def)

lemma substring_nonneg:
  assumes "0 \<le> a" "a \<le> b"
  shows "substring s a b = take (nat (b - a)) (drop (nat a) s)"
proof (cases "a \<le> int (length s)")
  case True
  with assms show ?thesis
    by (cases "b \<le> int (length s)") (simp_all add: substring_def Let_def min_def max_def)
next
  case False
  with assms show ?thesis
    by (simp add: substring_def Let_def min_def max_def)
qed

lemma substring_take:
  assumes "0 \<le> a" "a \<le> b" "b \<le> p"
  shows "substring (take (nat p) s) a b = substring s a b"
proof -
  have "take (nat (b - a)) (drop (nat a) (take (nat p) s)) = take (nat (b - a)) (drop (nat a) s)"
    using assms by (simp add: drop_take min_def nat_diff_distrib)
  with assms show ?thesis by (simp add: substring_nonneg)
qed

lemma substring_beyond:
  assumes "int (length s) \<le> a" "a \<le> b"
  shows "substring s a b = []"
proof (cases "s = []")
  case True
  then show ?thesis by simp
next
  case False
  then have "length s > 0" by simp
  with assms(1) have "0 < a" by linarith
  with assms show ?thesis
    by (simp add: substring_def Let_def min_def max_def)
qed

lemma parseInt_Nil [simp]: "parseInt [] = None"
  by (simp add: parseInt_def)

lemma year_createDateResult [simp]: "year (createDateResult y m d h mi s) = y"
  by (simp add: createDateResult_def Let_def)

lemma month_createDateResult [simp]: "month (createDateResult y m d h mi s) = m - 1"
  by (simp add: createDateResult_def Let_def)

lemma day_createDateResult [simp]: "day (createDateResult y m d h mi s) = d"
  by (simp add: createDateResult_def Let_def)

text \<open>Rounding to a double: the unit in the last place, the rounded quotient.\<close>

lemma pow2_pos: "0 < pow2 e"
  by (simp add: pow2_def)

lemma pow2_neg_le:
  assumes "e \<le> - int k"
  shows "pow2 e \<le> 1 / 2 ^ k"
proof -
  from assms have "k \<le> nat (- e)" by linarith
  then have "(2::real) ^ k \<le> 2 ^ nat (- e)" by (rule power_increasing) simp
  then have "1 / (2::real) ^ nat (- e) \<le> 1 / 2 ^ k"
    by (simp add: frac_le)
  with assms show ?thesis
    by (cases "k = 0") (auto simp add: pow2_def)
qed

lemma roundHalfEven_ge_floor: "\<lfloor>x\<rfloor> \<le> roundHalfEven x"
  by (simp add: roundHalfEven_def Let_def)

lemma roundHalfEven_upper: "real_of_int (roundHalfEven x) \<le> x + 1 / 2"
  unfolding roundHalfEven_def Let_def
  by (auto simp add: not_less) linarith+

lemma roundHalfEven_of_int [simp]: "roundHalfEven (of_int n) = n"
  by (simp add: roundHalfEven_def)

text \<open>The binary exponent brackets its argument.\<close>

lemma binaryExponent_bounds:
  assumes "0 < x"
  shows "pow2 (binaryExponent x) \<le> x \<and> x < pow2 (binaryExponent x + 1)"
proof (cases "1 \<le> x")
  case True
  then have p: "0 < \<lfloor>x\<rfloor>" by linarith
  define b where "b = bitlen \<lfloor>x\<rfloor>"
  from bitlen_bounds [OF p] have bb: "2 ^ nat (b - 1) \<le> \<lfloor>x\<rfloor>" "\<lfloor>x\<rfloor> < 2 ^ nat b"
    by (simp_all add: b_def)
  have b1: "1 \<le> b" using p by (simp add: b_def bitlen_ge_iff_power)
  from bb(1) have "real_of_int (2 ^ nat (b - 1)) \<le> x" by (simp only: le_floor_iff)
  then have lo: "2 ^ nat (b - 1) \<le> x" by simp
  from bb(2) have "x < real_of_int (2 ^ nat b)" by (simp only: floor_less_iff)
  then have hi: "x < 2 ^ nat b" by simp
  from True b1 lo hi show ?thesis
    by (simp add: binaryExponent_def pow2_def b_def [symmetric])
next
  case False
  with assms have x1: "x < 1" by simp
  define n where "n = \<lceil>1 / x\<rceil> - 1"
  have "1 < 1 / x" using assms x1 by simp
  then have n1: "1 \<le> n" unfolding n_def by linarith
  have nlt: "real_of_int n < 1 / x" unfolding n_def by linarith
  have nge: "1 / x \<le> real_of_int n + 1" unfolding n_def by linarith
  define b where "b = bitlen n"
  from n1 have p: "0 < n" by simp
  from bitlen_bounds [OF p] have bb: "2 ^ nat (b - 1) \<le> n" "n < 2 ^ nat b"
    by (simp_all add: b_def)
  have b1: "1 \<le> b" using p by (simp add: b_def bitlen_ge_iff_power)
  have "real_of_int (2 ^ nat (b - 1)) \<le> real_of_int n" using bb(1) by (rule of_int_le_iff [THEN iffD2])
  then have "(2::real) ^ nat (b - 1) \<le> real_of_int n" by simp
  with nlt have "2 ^ nat (b - 1) < 1 / x" by linarith
  then have hi: "x < 1 / 2 ^ nat (b - 1)" using assms
    by (simp add: field_simps)
  have "n + 1 \<le> 2 ^ nat b" using bb(2) by simp
  then have "real_of_int (n + 1) \<le> real_of_int (2 ^ nat b)" by (rule of_int_le_iff [THEN iffD2])
  then have "real_of_int n + 1 \<le> (2::real) ^ nat b" by simp
  with nge have "1 / x \<le> 2 ^ nat b" by linarith
  then have lo: "1 / 2 ^ nat b \<le> x" using assms
    by (simp add: field_simps)
  have e: "binaryExponent x = - b"
    using False by (simp add: binaryExponent_def b_def n_def)
  show ?thesis
  proof (cases "b = 1")
    case True
    with lo hi x1 show ?thesis by (simp add: e pow2_def)
  next
    case False
    with b1 have "1 < b" by simp
    then have "nat (- (- b + 1)) = nat (b - 1)" by simp
    with lo hi b1 \<open>1 < b\<close> show ?thesis by (simp add: e pow2_def)
  qed
qed

lemma binaryExponent_fraction:
  assumes "0 < x" "x < 1"
  shows "binaryExponent x \<le> - 1"
proof -
  have "1 < 1 / x" using assms by simp
  then have "1 \<le> \<lceil>1 / x\<rceil> - 1" by linarith
  then have "1 \<le> bitlen (\<lceil>1 / x\<rceil> - 1)" by (simp add: bitlen_ge_iff_power)
  with assms show ?thesis by (simp add: binaryExponent_def)
qed

lemma binaryExponent_le:
  assumes "0 < x" "x < 2 ^ k"
  shows "binaryExponent x \<le> int k - 1"
proof (cases "1 \<le> x")
  case True
  have "x < real_of_int (2 ^ k)" using assms(2) by simp
  then have "\<lfloor>x\<rfloor> < 2 ^ k" by (simp only: floor_less_iff)
  then have "bitlen \<lfloor>x\<rfloor> \<le> int k" by (simp add: bitlen_le_iff_power)
  with True show ?thesis by (simp add: binaryExponent_def)
next
  case False
  with assms(1) have "binaryExponent x \<le> - 1" by (intro binaryExponent_fraction) simp_all
  then show ?thesis by simp
qed

text \<open>Rounding a positive number moves it by at most half a unit in the last place and
  never below a multiple of that unit lying under it.\<close>

lemma roundToDouble_pos:
  assumes "0 < x"
  shows "roundToDouble x = pow2 (binaryExponent x - 52)
           * of_int (roundHalfEven (x / pow2 (binaryExponent x - 52)))"
  using assms by (simp add: roundToDouble_def Let_def)

lemma roundToDouble_upper:
  assumes "0 < x"
  shows "roundToDouble x \<le> x + pow2 (binaryExponent x - 52) / 2"
proof -
  define u where "u = pow2 (binaryExponent x - 52)"
  have u: "0 < u" by (simp add: u_def pow2_pos)
  have "real_of_int (roundHalfEven (x / u)) \<le> x / u + 1 / 2" by (rule roundHalfEven_upper)
  then have "u * real_of_int (roundHalfEven (x / u)) \<le> u * (x / u + 1 / 2)"
    using u by (simp only: mult_le_cancel_left_pos)
  also have "\<dots> = x + u / 2" using u by (simp add: algebra_simps)
  finally show ?thesis using assms by (simp add: roundToDouble_pos u_def)
qed

lemma roundToDouble_lower:
  assumes "0 < x" and "real_of_int k * pow2 (binaryExponent x - 52) \<le> x"
  shows "real_of_int k * pow2 (binaryExponent x - 52) \<le> roundToDouble x"
proof -
  define u where "u = pow2 (binaryExponent x - 52)"
  have u: "0 < u" by (simp add: u_def pow2_pos)
  from assms(2) have "real_of_int k \<le> x / u" using u by (simp add: u_def field_simps)
  then have "k \<le> \<lfloor>x / u\<rfloor>" by (simp add: le_floor_iff)
  also have "\<dots> \<le> roundHalfEven (x / u)" by (rule roundHalfEven_ge_floor)
  finally have "real_of_int k \<le> real_of_int (roundHalfEven (x / u))" by simp
  then have "u * real_of_int k \<le> u * real_of_int (roundHalfEven (x / u))"
    using u by (simp only: mult_le_cancel_left_pos)
  then show ?thesis using assms(1) by (simp add: roundToDouble_pos u_def mult.commute)
qed

lemma roundToDouble_fraction:
  assumes "0 \<le> x" "x < 1"
  shows "0 \<le> roundToDouble x \<and> roundToDouble x \<le> x + 1 / 2 ^ 54"
proof (cases "x = 0")
  case True
  then show ?thesis by (simp add: roundToDouble_def)
next
  case False
  with assms have p: "0 < x" by simp
  have "binaryExponent x - 52 \<le> - int 53" using binaryExponent_fraction [OF p assms(2)] by simp
  then have u: "pow2 (binaryExponent x - 52) \<le> 1 / 2 ^ 53" by (rule pow2_neg_le)
  have "real_of_int 0 * pow2 (binaryExponent x - 52) \<le> roundToDouble x"
    by (rule roundToDouble_lower [OF p]) (use p in simp)
  moreover have "roundToDouble x \<le> x + 1 / 2 ^ 54"
    using roundToDouble_upper [OF p] u by simp
  ultimately show ?thesis by simp
qed

lemma pow2_multiple:
  assumes "e \<le> 0"
  shows "real_of_int (h * 2 ^ nat (- e)) * pow2 e = real_of_int h"
  using assms by (cases "e = 0") (simp_all add: pow2_def)

lemma floor_roundToDouble_add:
  assumes "0 \<le> h" "h < 281474976710656" "0 \<le> q" "q \<le> 59 / 60 + 1 / 2 ^ 54"
  shows "\<lfloor>roundToDouble (real_of_int h + q)\<rfloor> = h"
proof (cases "real_of_int h + q = 0")
  case True
  with assms have "h = 0" by linarith
  with True show ?thesis by (simp add: roundToDouble_def)
next
  case False
  define x where "x = real_of_int h + q"
  from False assms have p: "0 < x" by (simp add: x_def)
  have "real_of_int h \<le> 281474976710655" using assms(2) by linarith
  then have "x < 2 ^ 48" using assms(4) by (simp add: x_def)
  from binaryExponent_le [OF p this] have e: "binaryExponent x - 52 \<le> - int 5" by simp
  then have u: "pow2 (binaryExponent x - 52) \<le> 1 / 2 ^ 5" by (rule pow2_neg_le)
  from e have e0: "binaryExponent x - 52 \<le> 0" by simp
  have "roundToDouble x \<le> x + pow2 (binaryExponent x - 52) / 2" by (rule roundToDouble_upper [OF p])
  then have hi: "roundToDouble x < real_of_int h + 1" using u assms(4) by (simp add: x_def)
  have m: "real_of_int (h * 2 ^ nat (- (binaryExponent x - 52))) * pow2 (binaryExponent x - 52) = real_of_int h"
    by (rule pow2_multiple [OF e0])
  have "real_of_int (h * 2 ^ nat (- (binaryExponent x - 52))) * pow2 (binaryExponent x - 52) \<le> x"
    unfolding m using assms(3) by (simp add: x_def)
  then have "real_of_int (h * 2 ^ nat (- (binaryExponent x - 52))) * pow2 (binaryExponent x - 52) \<le> roundToDouble x"
    by (rule roundToDouble_lower [OF p])
  then have lo: "real_of_int h \<le> roundToDouble x" by (simp only: m)
  from lo hi have "\<lfloor>roundToDouble x\<rfloor> = h" by linarith
  then show ?thesis by (simp add: x_def)
qed

text \<open>The hour field is \<^verbatim>\<open>Math.floor(hour + minute / 60)\<close>, computed in doubles.  Below
  \<open>2^48 = 281474976710656\<close> the doubles are at most \<open>2^-5\<close> apart, so that a fraction of at
  most \<open>59/60\<close> never reaches the next integer.\<close>

lemma hour_createDateResult_small:
  assumes "0 \<le> h" "h < 281474976710656" "0 \<le> mi" "mi \<le> 59"
  shows "hour (createDateResult y m d h mi s) = h"
proof -
  have "0 \<le> real_of_int mi / 60" using assms(3) by simp
  moreover have "real_of_int mi / 60 \<le> 59 / 60" using assms(4) by simp
  ultimately have "0 \<le> roundToDouble (real_of_int mi / 60)
      \<and> roundToDouble (real_of_int mi / 60) \<le> real_of_int mi / 60 + 1 / 2 ^ 54"
    by (intro roundToDouble_fraction) simp_all
  then have "0 \<le> roundToDouble (real_of_int mi / 60)"
    "roundToDouble (real_of_int mi / 60) \<le> 59 / 60 + 1 / 2 ^ 54"
    using \<open>real_of_int mi / 60 \<le> 59 / 60\<close> by linarith+
  then have "\<lfloor>roundToDouble (real_of_int h + roundToDouble (real_of_int mi / 60))\<rfloor> = h"
    using assms(1,2) by (intro floor_roundToDouble_add)
  then show ?thesis by (simp add: createDateResult_def Let_def)
qed

lemma hour_createDateResult_zero: "hour (createDateResult y m d 0 0 s) = 0"
  by (simp add: createDateResult_def Let_def roundToDouble_def)

text \<open>At \<open>2^48\<close> the doubles are \<open>2^-4\<close> apart: \<open>2^48 + 59/60\<close> lies closer to
  \<open>2^48 + 1\<close> than to \<open>2^48 + 15/16\<close> and is rounded up.\<close>

lemma hour_createDateResult_rounds_up:
  "hour (createDateResult y m d 281474976710656 59 s) = 281474976710657"
proof -
  have "\<lfloor>roundToDouble (281474976710656 + roundToDouble (59 / 60))\<rfloor> = (281474976710657::int)"
    by code_simp
  then show ?thesis by (simp add: createDateResult_def Let_def)
qed

lemma hour_createDateResult_no_minute:
  "hour (createDateResult y m d 281474976710656 0 s) = 281474976710656"
proof -
  have z: "roundToDouble 0 = 0" by (simp add: roundToDouble_def)
  have "\<lfloor>roundToDouble 281474976710656\<rfloor> = (281474976710656::int)"
    by code_simp
  then show ?thesis by (simp add: createDateResult_def Let_def z)
qed

text \<open>\<^verbatim>\<open>parseInt\<close> of a digit run is never negative.\<close>

lemma digitVal_nonneg: "isDigit ch \<Longrightarrow> 0 \<le> digitVal ch"
  by (auto simp add: isDigit_def digitVal_def)

lemma foldl_digits_nonneg:
  "\<forall>ch \<in> set ds. isDigit ch \<Longrightarrow> 0 \<le> acc
   \<Longrightarrow> 0 \<le> foldl (\<lambda>acc ch. 10 * acc + digitVal ch) acc ds"
proof (induction ds arbitrary: acc)
  case Nil
  then show ?case by simp
next
  case (Cons a ds)
  from Cons.prems have "0 \<le> 10 * acc + digitVal a"
    using digitVal_nonneg [of a] by simp
  with Cons show ?case by simp
qed

lemma orZero_parseInt_nonneg: "0 \<le> orZero (parseInt s)"
proof -
  have "\<forall>ch \<in> set (takeWhile isDigit s). isDigit ch"
    by (auto dest: set_takeWhileD)
  then have "0 \<le> foldl (\<lambda>acc ch. 10 * acc + digitVal ch) 0 (takeWhile isDigit s)"
    by (rule foldl_digits_nonneg) simp
  then show ?thesis by (simp add: parseInt_def orZero_def Let_def)
qed

text \<open>The parser in terms of its five slices.  An empty input has an empty year slice, so
  the first two early returns merge.\<close>

lemma parseSimplifiedDate_unfold:
  "parseSimplifiedDate s c e ty =
     (if yearStrOf c s = [] \<or> orZero (parseInt (yearStrOf c s)) = 0 then None
      else if e \<and> ty \<noteq> ''point'' \<and> monthStrOf c s = [] \<and> dayStrOf c s = []
              \<and> hourStrOf c s = [] \<and> minuteStrOf c s = []
      then Some (createDateResult (orZero (parseInt (yearStrOf c s)) + 1) 1 1 0 0 s)
      else Some (createDateResult (orZero (parseInt (yearStrOf c s)))
                   (if orZero (parseInt (monthStrOf c s)) = 0 then 1 else orZero (parseInt (monthStrOf c s)))
                   (if orZero (parseInt (dayStrOf c s)) = 0 then 1 else orZero (parseInt (dayStrOf c s)))
                   (orZero (parseInt (hourStrOf c s)))
                   (orZero (parseInt (minuteStrOf c s))) s))"
proof (cases "s = []")
  case True
  then show ?thesis by (simp add: parseSimplifiedDate_def yearStrOf_def)
next
  case False
  then show ?thesis
    by (simp add: parseSimplifiedDate_def yearStrOf_def monthStrOf_def dayStrOf_def hourStrOf_def
        minuteStrOf_def Let_def add.assoc)
qed

lemma filter_isDigit_id: "\<forall>ch \<in> set s. isDigit ch \<Longrightarrow> filter isDigit s = s"
  by (induction s) auto

lemma filter_isDigit_take:
  "filter isDigit (take n (filter isDigit s)) = take n (filter isDigit s)"
  by (rule filter_isDigit_id) (auto dest: in_set_takeD)

lemma yearStrOf_digits:
  assumes "\<forall>ch \<in> set s. isDigit ch" and "0 < yearLength c"
  shows "yearStrOf c s = take (nat (yearLength c)) s"
  using assms by (simp add: yearStrOf_def filter_isDigit_id substring_nonneg)

lemma slices_withoutMinuteDigits:
  assumes "0 \<le> yearLength c" "0 \<le> monthLength c" "0 \<le> dayLength c" "0 \<le> hourLength c"
    "0 \<le> minuteLength c"
  shows "yearStrOf c (withoutMinuteDigits c s) = yearStrOf c s"
    and "monthStrOf c (withoutMinuteDigits c s) = monthStrOf c s"
    and "dayStrOf c (withoutMinuteDigits c s) = dayStrOf c s"
    and "hourStrOf c (withoutMinuteDigits c s) = hourStrOf c s"
    and "minuteStrOf c (withoutMinuteDigits c s) = []"
proof -
  show "yearStrOf c (withoutMinuteDigits c s) = yearStrOf c s"
    using assms by (simp add: yearStrOf_def withoutMinuteDigits_def filter_isDigit_take substring_take)
  show "monthStrOf c (withoutMinuteDigits c s) = monthStrOf c s"
    using assms by (simp add: monthStrOf_def withoutMinuteDigits_def filter_isDigit_take substring_take)
  show "dayStrOf c (withoutMinuteDigits c s) = dayStrOf c s"
    using assms by (simp add: dayStrOf_def withoutMinuteDigits_def filter_isDigit_take substring_take)
  show "hourStrOf c (withoutMinuteDigits c s) = hourStrOf c s"
    using assms by (simp add: hourStrOf_def withoutMinuteDigits_def filter_isDigit_take substring_take)
  show "minuteStrOf c (withoutMinuteDigits c s) = []"
    using assms by (simp add: minuteStrOf_def withoutMinuteDigits_def filter_isDigit_take substring_beyond)
qed

text \<open>Evaluation of the parser on the inputs of the documented scenarios.\<close>

lemma parseInt_examples:
  "parseInt ''2025'' = Some 2025" "parseInt ''07'' = Some 7" "parseInt ''25'' = Some 25"
  "parseInt ''10'' = Some 10" "parseInt ''45'' = Some 45" "parseInt ''30'' = Some 30"
  by (simp_all add: parseInt_def isDigit_def digitVal_def)

lemma slices_2025:
  "yearStrOf DEFAULT_DATE_PARSING_CONFIG ''2025'' = ''2025''" "monthStrOf DEFAULT_DATE_PARSING_CONFIG ''2025'' = []"
  "dayStrOf DEFAULT_DATE_PARSING_CONFIG ''2025'' = []" "hourStrOf DEFAULT_DATE_PARSING_CONFIG ''2025'' = []"
  "minuteStrOf DEFAULT_DATE_PARSING_CONFIG ''2025'' = []"
  by (simp_all add: yearStrOf_def monthStrOf_def dayStrOf_def hourStrOf_def minuteStrOf_def
      DEFAULT_DATE_PARSING_CONFIG_def substring_def isDigit_def)

lemma slices_202507:
  "yearStrOf DEFAULT_DATE_PARSING_CONFIG ''2025-07'' = ''2025''" "monthStrOf DEFAULT_DATE_PARSING_CONFIG ''2025-07'' = ''07''"
  "dayStrOf DEFAULT_DATE_PARSING_CONFIG ''2025-07'' = []" "hourStrOf DEFAULT_DATE_PARSING_CONFIG ''2025-07'' = []"
  "minuteStrOf DEFAULT_DATE_PARSING_CONFIG ''2025-07'' = []"
  by (simp_all add: yearStrOf_def monthStrOf_def dayStrOf_def hourStrOf_def minuteStrOf_def
      DEFAULT_DATE_PARSING_CONFIG_def substring_def isDigit_def)

lemma slices_full:
  "yearStrOf DEFAULT_DATE_PARSING_CONFIG ''2025-07-25 10:45'' = ''2025''"
  "monthStrOf DEFAULT_DATE_PARSING_CONFIG ''2025-07-25 10:45'' = ''07''"
  "dayStrOf DEFAULT_DATE_PARSING_CONFIG ''2025-07-25 10:45'' = ''25''"
  "hourStrOf DEFAULT_DATE_PARSING_CONFIG ''2025-07-25 10:45'' = ''10''"
  "minuteStrOf DEFAULT_DATE_PARSING_CONFIG ''2025-07-25 10:45'' = ''45''"
  by (simp_all add: yearStrOf_def monthStrOf_def dayStrOf_def hourStrOf_def minuteStrOf_def
      DEFAULT_DATE_PARSING_CONFIG_def substring_def isDigit_def)

lemma slices_minuteOnly:
  "yearStrOf minuteOnlyConfig ''202530'' = ''2025''" "monthStrOf minuteOnlyConfig ''202530'' = []"
  "dayStrOf minuteOnlyConfig ''202530'' = []" "hourStrOf minuteOnlyConfig ''202530'' = []"
  "minuteStrOf minuteOnlyConfig ''202530'' = ''30''"
  by (simp_all add: yearStrOf_def monthStrOf_def dayStrOf_def hourStrOf_def minuteStrOf_def
      minuteOnlyConfig_def substring_def isDigit_def)

lemma slices_wideHour:
  "yearStrOf wideHourConfig ''2025-07-25 281474976710656:59'' = ''2025''"
  "monthStrOf wideHourConfig ''2025-07-25 281474976710656:59'' = ''07''"
  "dayStrOf wideHourConfig ''2025-07-25 281474976710656:59'' = ''25''"
  "hourStrOf wideHourConfig ''2025-07-25 281474976710656:59'' = ''281474976710656''"
  "minuteStrOf wideHourConfig ''2025-07-25 281474976710656:59'' = ''59''"
  by (simp_all add: yearStrOf_def monthStrOf_def dayStrOf_def hourStrOf_def minuteStrOf_def
      wideHourConfig_def substring_def isDigit_def)

lemma cut_wideHour:
  "withoutMinuteDigits wideHourConfig ''2025-07-25 281474976710656:59'' = ''20250725281474976710656''"
  by (simp add: withoutMinuteDigits_def wideHourConfig_def isDigit_def)

lemma slices_wideHour_cut:
  "yearStrOf wideHourConfig ''20250725281474976710656'' = ''2025''"
  "monthStrOf wideHourConfig ''20250725281474976710656'' = ''07''"
  "dayStrOf wideHourConfig ''20250725281474976710656'' = ''25''"
  "hourStrOf wideHourConfig ''20250725281474976710656'' = ''281474976710656''"
  "minuteStrOf wideHourConfig ''20250725281474976710656'' = []"
  by (simp_all add: yearStrOf_def monthStrOf_def dayStrOf_def hourStrOf_def minuteStrOf_def
      wideHourConfig_def substring_def isDigit_def)

lemma parseInt_wideHour:
  "parseInt ''281474976710656'' = Some 281474976710656" "parseInt ''59'' = Some 59"
  by (simp_all add: parseInt_def isDigit_def digitVal_def)

text \<open>
  Claim C3.  Let the year slice of the cleaned digits parse to a non-zero \<open>y\<close>.  If the
  month, day, hour and minute slices are all empty, then parsing as an end date with an
  event type other than \<^verbatim>\<open>point\<close> gives year \<open>y + 1\<close>, month 0, day 1 (hour 0), and with
  event type \<^verbatim>\<open>point\<close> it gives year \<open>y\<close>, month 0, day 1.  If any of the four finer
  slices is non-empty, the end-date flag changes nothing: the result is the one of a start
  date, with year \<open>y\<close>.
\<close>

theorem parse_end_date_inference:
  assumes "parseInt (yearStrOf c s) = Some y" and "y \<noteq> 0"
  shows "(monthStrOf c s = [] \<and> dayStrOf c s = [] \<and> hourStrOf c s = [] \<and> minuteStrOf c s = []
          \<longrightarrow> (ty \<noteq> ''point'' \<longrightarrow>
                 map_option numericComponents (parseSimplifiedDate s c True ty) = Some (y + 1, 0, 1, 0))
              \<and> map_option numericComponents (parseSimplifiedDate s c True ''point'') = Some (y, 0, 1, 0))
       \<and> (\<not> (monthStrOf c s = [] \<and> dayStrOf c s = [] \<and> hourStrOf c s = [] \<and> minuteStrOf c s = [])
          \<longrightarrow> parseSimplifiedDate s c True ty = parseSimplifiedDate s c False ty
              \<and> map_option year (parseSimplifiedDate s c True ty) = Some y)"
proof -
  from assms have ys: "yearStrOf c s \<noteq> []" by auto
  from assms have oz: "orZero (parseInt (yearStrOf c s)) = y" by (simp add: orZero_def)
  show ?thesis
    using ys oz assms(2)
    by (simp add: parseSimplifiedDate_unfold hour_createDateResult_zero orZero_def numericComponents_def)
qed

theorem parse_end_date_inference_witness:
  "map_option numericComponents (parseSimplifiedDate ''2025'' DEFAULT_DATE_PARSING_CONFIG True ''box'')
     = Some (2026, 0, 1, 0)
   \<and> map_option numericComponents (parseSimplifiedDate ''2025'' DEFAULT_DATE_PARSING_CONFIG True ''point'')
     = Some (2025, 0, 1, 0)
   \<and> parseSimplifiedDate ''2025-07'' DEFAULT_DATE_PARSING_CONFIG True ''box''
     = parseSimplifiedDate ''2025-07'' DEFAULT_DATE_PARSING_CONFIG False ''box''
   \<and> map_option year (parseSimplifiedDate ''2025-07'' DEFAULT_DATE_PARSING_CONFIG True ''box'') = Some 2025"
proof -
  have a: "parseInt (yearStrOf DEFAULT_DATE_PARSING_CONFIG ''2025'') = Some 2025"
    by (simp add: slices_2025 parseInt_examples)
  have b: "parseInt (yearStrOf DEFAULT_DATE_PARSING_CONFIG ''2025-07'') = Some 2025"
    by (simp add: slices_202507 parseInt_examples)
  have nz: "(2025::int) \<noteq> 0" by simp
  have e: "monthStrOf DEFAULT_DATE_PARSING_CONFIG ''2025'' = [] \<and> dayStrOf DEFAULT_DATE_PARSING_CONFIG ''2025'' = []
      \<and> hourStrOf DEFAULT_DATE_PARSING_CONFIG ''2025'' = [] \<and> minuteStrOf DEFAULT_DATE_PARSING_CONFIG ''2025'' = []"
    by (simp add: slices_2025)
  have f: "\<not> (monthStrOf DEFAULT_DATE_PARSING_CONFIG ''2025-07'' = [] \<and> dayStrOf DEFAULT_DATE_PARSING_CONFIG ''2025-07'' = []
      \<and> hourStrOf DEFAULT_DATE_PARSING_CONFIG ''2025-07'' = [] \<and> minuteStrOf DEFAULT_DATE_PARSING_CONFIG ''2025-07'' = [])"
    by (simp add: slices_202507)
  have p: "''box'' \<noteq> ''point''" by simp
  have s: "(2025::int) + 1 = 2026" by simp
  show ?thesis
    using parse_end_date_inference [OF a nz, of "''box''"]
      parse_end_date_inference [OF b nz, of "''box''"] e f p
    unfolding s by blast
qed

text \<open>
  Claim C6, as amended.  For a configuration with five positive widths and an input of
  digits only whose first \<open>yearLength\<close> characters parse to a non-zero \<open>y\<close>, the parser
  returns a result; its year is \<open>y\<close>, except that an end date of a non-point event with no
  digit beyond the year slice gets year \<open>y + 1\<close>.
\<close>

theorem parse_year_of_digit_string:
  assumes "0 < yearLength c" and "0 < monthLength c" and "0 < dayLength c"
    and "0 < hourLength c" and "0 < minuteLength c"
    and "\<forall>ch \<in> set s. isDigit ch"
    and "parseInt (take (nat (yearLength c)) s) = Some y" and "y \<noteq> 0"
  shows "map_option year (parseSimplifiedDate s c isEndDate eventType)
         = Some (if isEndDate \<and> eventType \<noteq> ''point'' \<and> length s \<le> nat (yearLength c)
                 then y + 1 else y)"
proof -
  have ys: "yearStrOf c s = take (nat (yearLength c)) s"
    using assms(1,6) by (rule yearStrOf_digits[rotated])
  have ne: "yearStrOf c s \<noteq> []" using assms(7) ys by auto
  have oz: "orZero (parseInt (yearStrOf c s)) = y" using assms(7) ys by (simp add: orZero_def)
  have fin: "(monthStrOf c s = [] \<and> dayStrOf c s = [] \<and> hourStrOf c s = [] \<and> minuteStrOf c s = [])
             \<longleftrightarrow> length s \<le> nat (yearLength c)"
  proof
    assume "monthStrOf c s = [] \<and> dayStrOf c s = [] \<and> hourStrOf c s = [] \<and> minuteStrOf c s = []"
    then have "monthStrOf c s = []" by simp
    then show "length s \<le> nat (yearLength c)"
      using assms(1,2,6) by (simp add: monthStrOf_def filter_isDigit_id substring_nonneg)
  next
    assume l: "length s \<le> nat (yearLength c)"
    with assms(1) have "int (length s) \<le> yearLength c" by linarith
    then show "monthStrOf c s = [] \<and> dayStrOf c s = [] \<and> hourStrOf c s = [] \<and> minuteStrOf c s = []"
      using assms(1-6)
      by (simp add: monthStrOf_def dayStrOf_def hourStrOf_def minuteStrOf_def filter_isDigit_id
          substring_beyond)
  qed
  show ?thesis
    using ne oz assms(8) fin
    by (simp add: parseSimplifiedDate_unfold)
qed

theorem parse_year_of_digit_string_witness:
  "map_option year (parseSimplifiedDate ''20250725'' DEFAULT_DATE_PARSING_CONFIG False ''box'') = Some 2025"
proof -
  have w: "0 < yearLength DEFAULT_DATE_PARSING_CONFIG" "0 < monthLength DEFAULT_DATE_PARSING_CONFIG"
    "0 < dayLength DEFAULT_DATE_PARSING_CONFIG" "0 < hourLength DEFAULT_DATE_PARSING_CONFIG" "0 < minuteLength DEFAULT_DATE_PARSING_CONFIG"
    by (simp_all add: DEFAULT_DATE_PARSING_CONFIG_def)
  have d: "\<forall>ch \<in> set ''20250725''. isDigit ch"
    by (simp add: isDigit_def)
  have y: "parseInt (take (nat (yearLength DEFAULT_DATE_PARSING_CONFIG)) ''20250725'') = Some 2025"
    by (simp add: DEFAULT_DATE_PARSING_CONFIG_def parseInt_examples)
  have nz: "(2025::int) \<noteq> 0" by simp
  show ?thesis
    using parse_year_of_digit_string [OF w d y nz, of False "''box''"] by simp
qed

text \<open>
  Claim C6 as stated fails for an end date: the digit string \<^verbatim>\<open>2025\<close> under widths
  (4,2,2,2,2) has the year slice value 2025, and parsing it as the end date of a box
  event returns year 2026.
\<close>

theorem parse_year_of_digit_string_counterexample:
  "(0 < yearLength DEFAULT_DATE_PARSING_CONFIG \<and> 0 < monthLength DEFAULT_DATE_PARSING_CONFIG \<and> 0 < dayLength DEFAULT_DATE_PARSING_CONFIG
    \<and> 0 < hourLength DEFAULT_DATE_PARSING_CONFIG \<and> 0 < minuteLength DEFAULT_DATE_PARSING_CONFIG)
   \<and> list_all isDigit ''2025''
   \<and> parseInt (take (nat (yearLength DEFAULT_DATE_PARSING_CONFIG)) ''2025'') = Some 2025
   \<and> map_option year (parseSimplifiedDate ''2025'' DEFAULT_DATE_PARSING_CONFIG True ''box'') = Some 2026
   \<and> map_option year (parseSimplifiedDate ''2025'' DEFAULT_DATE_PARSING_CONFIG True ''box'') \<noteq> Some 2025"
proof -
  have "map_option year (parseSimplifiedDate ''2025'' DEFAULT_DATE_PARSING_CONFIG True ''box'') = Some 2026"
    by (simp add: parseSimplifiedDate_unfold slices_2025 parseInt_examples orZero_def)
  moreover have "parseInt (take (nat (yearLength DEFAULT_DATE_PARSING_CONFIG)) ''2025'') = Some 2025"
    by (simp add: DEFAULT_DATE_PARSING_CONFIG_def parseInt_examples)
  moreover have "list_all isDigit ''2025''"
    by (simp add: isDigit_def)
  moreover have "0 < yearLength DEFAULT_DATE_PARSING_CONFIG \<and> 0 < monthLength DEFAULT_DATE_PARSING_CONFIG
    \<and> 0 < dayLength DEFAULT_DATE_PARSING_CONFIG \<and> 0 < hourLength DEFAULT_DATE_PARSING_CONFIG \<and> 0 < minuteLength DEFAULT_DATE_PARSING_CONFIG"
    by (simp add: DEFAULT_DATE_PARSING_CONFIG_def)
  ultimately show ?thesis
    by auto
qed

text \<open>
  Claim C9, as amended.  For non-negative widths, a non-zero year slice, a minute slice
  whose value lies in \<open>[0, 59]\<close> and an hour slice whose value is below
  \<open>2^48 = 281474976710656\<close>: the hour field of the result is the value of the hour slice,
  and the numeric components (year, month, day, hour) are those obtained from the same
  digits cut off before the minute slice, unless the minute slice is the only finer slice
  present in an end date of a non-point event; in that one case its presence turns the
  end-date inference off (year \<open>y\<close> instead of \<open>y + 1\<close>).
\<close>

theorem minute_slice_keeps_numeric_components:
  assumes "0 \<le> yearLength c" "0 \<le> monthLength c" "0 \<le> dayLength c" "0 \<le> hourLength c"
    "0 \<le> minuteLength c"
    and "parseInt (yearStrOf c s) = Some y" and "y \<noteq> 0"
    and "0 \<le> orZero (parseInt (minuteStrOf c s))" and "orZero (parseInt (minuteStrOf c s)) \<le> 59"
    and "orZero (parseInt (hourStrOf c s)) < 281474976710656"
  shows "map_option hour (parseSimplifiedDate s c e ty) = Some (orZero (parseInt (hourStrOf c s)))
       \<and> (\<not> (e \<and> ty \<noteq> ''point'' \<and> minuteStrOf c s \<noteq> []
               \<and> monthStrOf c s = [] \<and> dayStrOf c s = [] \<and> hourStrOf c s = [])
            \<longrightarrow> map_option numericComponents (parseSimplifiedDate s c e ty)
                = map_option numericComponents (parseSimplifiedDate (withoutMinuteDigits c s) c e ty))
       \<and> (e \<and> ty \<noteq> ''point'' \<and> minuteStrOf c s \<noteq> []
               \<and> monthStrOf c s = [] \<and> dayStrOf c s = [] \<and> hourStrOf c s = []
            \<longrightarrow> map_option numericComponents (parseSimplifiedDate s c e ty) = Some (y, 0, 1, 0)
              \<and> map_option numericComponents (parseSimplifiedDate (withoutMinuteDigits c s) c e ty)
                = Some (y + 1, 0, 1, 0))"
proof -
  note sl = slices_withoutMinuteDigits [OF assms(1-5), of s]
  from assms(6) have ne: "yearStrOf c s \<noteq> []" by auto
  from assms(6) have oz: "orZero (parseInt (yearStrOf c s)) = y" by (simp add: orZero_def)
  have on: "orZero None = 0" by (simp add: orZero_def)
  have hm: "hour (createDateResult Y M D (orZero (parseInt (hourStrOf c s)))
                    (orZero (parseInt (minuteStrOf c s))) t)
            = orZero (parseInt (hourStrOf c s))" for Y M D t
    using orZero_parseInt_nonneg assms(10,8,9) by (rule hour_createDateResult_small)
  have h0: "hour (createDateResult Y M D (orZero (parseInt (hourStrOf c s))) 0 t)
            = orZero (parseInt (hourStrOf c s))" for Y M D t
    using orZero_parseInt_nonneg assms(10) by (rule hour_createDateResult_small) simp_all
  have zm: "hour (createDateResult Y M D 0 (orZero (parseInt (minuteStrOf c s))) t) = 0" for Y M D t
    using assms(8,9) by (intro hour_createDateResult_small) simp_all
  show ?thesis
    using ne oz assms(7)
    by (simp add: parseSimplifiedDate_unfold sl numericComponents_def hm h0 zm
        hour_createDateResult_zero on)
qed

theorem minute_slice_keeps_numeric_components_witness:
  "map_option numericComponents (parseSimplifiedDate ''2025-07-25 10:45'' DEFAULT_DATE_PARSING_CONFIG True ''box'')
     = Some (2025, 6, 25, 10)
   \<and> map_option numericComponents
        (parseSimplifiedDate (withoutMinuteDigits DEFAULT_DATE_PARSING_CONFIG ''2025-07-25 10:45'') DEFAULT_DATE_PARSING_CONFIG True ''box'')
     = Some (2025, 6, 25, 10)
   \<and> map_option numericComponents (parseSimplifiedDate ''202530'' minuteOnlyConfig True ''box'')
     = Some (2025, 0, 1, 0)
   \<and> map_option numericComponents
        (parseSimplifiedDate (withoutMinuteDigits minuteOnlyConfig ''202530'') minuteOnlyConfig True ''box'')
     = Some (2026, 0, 1, 0)"
proof -
  have 4: "map_option numericComponents (parseSimplifiedDate ''2025-07-25 10:45'' DEFAULT_DATE_PARSING_CONFIG True ''box'')
     = Some (2025, 6, 25, 10)"
    by (simp add: parseSimplifiedDate_unfold slices_full parseInt_examples orZero_def
        numericComponents_def hour_createDateResult_small)
  have w: "0 \<le> yearLength DEFAULT_DATE_PARSING_CONFIG" "0 \<le> monthLength DEFAULT_DATE_PARSING_CONFIG"
    "0 \<le> dayLength DEFAULT_DATE_PARSING_CONFIG" "0 \<le> hourLength DEFAULT_DATE_PARSING_CONFIG"
    "0 \<le> minuteLength DEFAULT_DATE_PARSING_CONFIG"
    by (simp_all add: DEFAULT_DATE_PARSING_CONFIG_def)
  have y: "parseInt (yearStrOf DEFAULT_DATE_PARSING_CONFIG ''2025-07-25 10:45'') = Some 2025" "(2025::int) \<noteq> 0"
    by (simp_all add: slices_full parseInt_examples)
  have m: "0 \<le> orZero (parseInt (minuteStrOf DEFAULT_DATE_PARSING_CONFIG ''2025-07-25 10:45''))"
    "orZero (parseInt (minuteStrOf DEFAULT_DATE_PARSING_CONFIG ''2025-07-25 10:45'')) \<le> 59"
    "orZero (parseInt (hourStrOf DEFAULT_DATE_PARSING_CONFIG ''2025-07-25 10:45'')) < 281474976710656"
    by (simp_all add: slices_full parseInt_examples orZero_def)
  have w': "0 \<le> yearLength minuteOnlyConfig" "0 \<le> monthLength minuteOnlyConfig"
    "0 \<le> dayLength minuteOnlyConfig" "0 \<le> hourLength minuteOnlyConfig"
    "0 \<le> minuteLength minuteOnlyConfig"
    by (simp_all add: minuteOnlyConfig_def)
  have y': "parseInt (yearStrOf minuteOnlyConfig ''202530'') = Some 2025"
    by (simp add: slices_minuteOnly parseInt_examples)
  have m': "0 \<le> orZero (parseInt (minuteStrOf minuteOnlyConfig ''202530''))"
    "orZero (parseInt (minuteStrOf minuteOnlyConfig ''202530'')) \<le> 59"
    "orZero (parseInt (hourStrOf minuteOnlyConfig ''202530'')) < 281474976710656"
    by (simp_all add: slices_minuteOnly parseInt_examples orZero_def)
  show ?thesis
    using minute_slice_keeps_numeric_components [OF w y m, of True "''box''"]
      minute_slice_keeps_numeric_components [OF w' y' y(2) m', of True "''box''"]
    by (simp add: slices_full slices_minuteOnly 4)
qed

text \<open>
  Claim C9 as stated fails for a large hour slice: under widths (4,2,2,15,2) the input
  \<^verbatim>\<open>2025-07-25 281474976710656:59\<close> has the hour slice value \<open>2^48\<close> and the minute slice
  value 59; the sum \<open>2^48 + 59/60\<close> is rounded to the double \<open>2^48 + 1\<close>, so the hour field
  is 281474976710657, while the same digits cut off before the minute slice give the hour
  field 281474976710656.
\<close>

theorem minute_slice_keeps_numeric_components_counterexample:
  "(0 \<le> yearLength wideHourConfig \<and> 0 \<le> monthLength wideHourConfig \<and> 0 \<le> dayLength wideHourConfig
    \<and> 0 \<le> hourLength wideHourConfig \<and> 0 \<le> minuteLength wideHourConfig)
   \<and> parseInt (yearStrOf wideHourConfig ''2025-07-25 281474976710656:59'') = Some 2025
   \<and> orZero (parseInt (minuteStrOf wideHourConfig ''2025-07-25 281474976710656:59'')) = 59
   \<and> orZero (parseInt (hourStrOf wideHourConfig ''2025-07-25 281474976710656:59'')) = 281474976710656
   \<and> map_option hour (parseSimplifiedDate ''2025-07-25 281474976710656:59'' wideHourConfig False ''box'')
       = Some 281474976710657
   \<and> map_option hour (parseSimplifiedDate ''2025-07-25 281474976710656:59'' wideHourConfig False ''box'')
       \<noteq> Some (orZero (parseInt (hourStrOf wideHourConfig ''2025-07-25 281474976710656:59'')))
   \<and> map_option numericComponents
        (parseSimplifiedDate ''2025-07-25 281474976710656:59'' wideHourConfig False ''box'')
       = Some (2025, 6, 25, 281474976710657)
   \<and> map_option numericComponents
        (parseSimplifiedDate (withoutMinuteDigits wideHourConfig ''2025-07-25 281474976710656:59'')
           wideHourConfig False ''box'')
       = Some (2025, 6, 25, 281474976710656)"
proof -
  have w: "0 \<le> yearLength wideHourConfig \<and> 0 \<le> monthLength wideHourConfig \<and> 0 \<le> dayLength wideHourConfig
    \<and> 0 \<le> hourLength wideHourConfig \<and> 0 \<le> minuteLength wideHourConfig"
    by (simp add: wideHourConfig_def)
  have y: "parseInt (yearStrOf wideHourConfig ''2025-07-25 281474976710656:59'') = Some 2025"
    by (simp add: slices_wideHour parseInt_examples)
  have mi: "orZero (parseInt (minuteStrOf wideHourConfig ''2025-07-25 281474976710656:59'')) = 59"
    by (simp add: slices_wideHour parseInt_wideHour orZero_def)
  have h: "orZero (parseInt (hourStrOf wideHourConfig ''2025-07-25 281474976710656:59'')) = 281474976710656"
    by (simp add: slices_wideHour parseInt_wideHour orZero_def)
  have p: "parseSimplifiedDate ''2025-07-25 281474976710656:59'' wideHourConfig False ''box''
      = Some (createDateResult 2025 7 25 281474976710656 59 ''2025-07-25 281474976710656:59'')"
    by (simp add: parseSimplifiedDate_unfold slices_wideHour parseInt_examples parseInt_wideHour
        orZero_def)
  have q: "parseSimplifiedDate (withoutMinuteDigits wideHourConfig ''2025-07-25 281474976710656:59'')
        wideHourConfig False ''box''
      = Some (createDateResult 2025 7 25 281474976710656 0 ''20250725281474976710656'')"
    by (simp add: parseSimplifiedDate_unfold slices_wideHour_cut parseInt_examples
        parseInt_wideHour orZero_def cut_wideHour)
  have hp: "map_option hour (parseSimplifiedDate ''2025-07-25 281474976710656:59'' wideHourConfig False ''box'')
      = Some 281474976710657"
    by (simp add: p hour_createDateResult_rounds_up)
  have np: "map_option numericComponents
        (parseSimplifiedDate ''2025-07-25 281474976710656:59'' wideHourConfig False ''box'')
      = Some (2025, 6, 25, 281474976710657)"
    by (simp add: p numericComponents_def hour_createDateResult_rounds_up)
  have nq: "map_option numericComponents
        (parseSimplifiedDate (withoutMinuteDigits wideHourConfig ''2025-07-25 281474976710656:59'')
           wideHourConfig False ''box'')
      = Some (2025, 6, 25, 281474976710656)"
    by (simp add: q numericComponents_def hour_createDateResult_no_minute)
  have ne: "map_option hour (parseSimplifiedDate ''2025-07-25 281474976710656:59'' wideHourConfig False ''box'')
       \<noteq> Some (orZero (parseInt (hourStrOf wideHourConfig ''2025-07-25 281474976710656:59'')))"
    unfolding hp h by simp
  from w y mi h hp ne np nq show ?thesis by blast
qed

section \<open>Properties of the host calendar\<close>

lemma div_bounds_pos:
  fixes x :: int
  assumes "0 < m"
  shows "m * (x div m) \<le> x" and "x < m * (x div m) + m"
proof -
  have e: "m * (x div m) + x mod m = x" by (rule mult_div_mod_eq)
  have "0 \<le> x mod m" "x mod m < m" using assms by simp_all
  with e show "m * (x div m) \<le> x" and "x < m * (x div m) + m" by linarith+
qed

lemma DayFromYear_less_Suc: "DayFromYear y < DayFromYear (y + 1)"
proof -
  define a where "a = (y - 1969) div 4"
  define a' where "a' = (y + 1 - 1969) div 4"
  define p where "p = (y - 1901) div 100"
  define p' where "p' = (y + 1 - 1901) div 100"
  define c where "c = (y - 1601) div 400"
  define c' where "c' = (y + 1 - 1601) div 400"
  have 1: "a \<le> a'"
    unfolding a_def a'_def by (rule zdiv_mono1) simp_all
  have 3: "c \<le> c'"
    unfolding c_def c'_def by (rule zdiv_mono1) simp_all
  have "100 * p \<le> y - 1901" "y - 1901 < 100 * p + 100"
    unfolding p_def by (rule div_bounds_pos, simp)+
  moreover have "100 * p' \<le> y + 1 - 1901" "y + 1 - 1901 < 100 * p' + 100"
    unfolding p'_def by (rule div_bounds_pos, simp)+
  ultimately have 2: "p' \<le> p + 1" by linarith
  have "DayFromYear y = 365 * (y - 1970) + a - p + c"
    by (simp add: DayFromYear_def a_def p_def c_def)
  moreover have "DayFromYear (y + 1) = 365 * (y + 1 - 1970) + a' - p' + c'"
    by (simp only: DayFromYear_def a'_def p'_def c'_def)
  ultimately show ?thesis
    using 1 2 3 by (simp add: algebra_simps)
qed

lemma DayFromYear_mono_aux: "0 \<le> k \<Longrightarrow> DayFromYear y \<le> DayFromYear (y + k)"
proof (induction k rule: int_ge_induct)
  case base
  then show ?case by simp
next
  case (step i)
  have "DayFromYear (y + i) < DayFromYear (y + i + 1)" by (rule DayFromYear_less_Suc)
  with step show ?case by (simp add: add.assoc)
qed

lemma DayFromYear_mono: "y \<le> y' \<Longrightarrow> DayFromYear y \<le> DayFromYear y'"
  using DayFromYear_mono_aux [of "y' - y" y] by simp

lemma DayFromYear_less_iff: "DayFromYear y < DayFromYear y' \<longleftrightarrow> y < y'"
proof
  assume "DayFromYear y < DayFromYear y'"
  then show "y < y'" using DayFromYear_mono [of y' y] by (cases "y < y'") auto
next
  assume "y < y'"
  then have "DayFromYear (y + 1) \<le> DayFromYear y'" by (intro DayFromYear_mono) simp
  with DayFromYear_less_Suc [of y] show "DayFromYear y < DayFromYear y'" by simp
qed

lemma DayFromYear_le_iff: "DayFromYear y \<le> DayFromYear y' \<longleftrightarrow> y \<le> y'"
  using DayFromYear_less_iff [of y' y] by auto

lemma DayFromYear_bounds:
  "3652425 * (y - 1970) - 12650 \<le> 10000 * DayFromYear y"
  "10000 * DayFromYear y \<le> 3652425 * (y - 1970) + 14725"
proof -
  define q4 where "q4 = (y - 1969) div 4"
  define q100 where "q100 = (y - 1901) div 100"
  define q400 where "q400 = (y - 1601) div 400"
  have a: "4 * q4 \<le> y - 1969" "y - 1969 < 4 * q4 + 4"
    unfolding q4_def by (rule div_bounds_pos, simp)+
  have b: "100 * q100 \<le> y - 1901" "y - 1901 < 100 * q100 + 100"
    unfolding q100_def by (rule div_bounds_pos, simp)+
  have c: "400 * q400 \<le> y - 1601" "y - 1601 < 400 * q400 + 400"
    unfolding q400_def by (rule div_bounds_pos, simp)+
  have d: "DayFromYear y = 365 * (y - 1970) + q4 - q100 + q400"
    by (simp add: DayFromYear_def q4_def q100_def q400_def)
  have a1: "2500 * y - 4930000 \<le> 10000 * q4" "10000 * q4 \<le> 2500 * y - 4922500"
    using a by linarith+
  have b1: "100 * y - 200000 \<le> 10000 * q100" "10000 * q100 \<le> 100 * y - 190100"
    using b by linarith+
  have c1: "25 * y - 50000 \<le> 10000 * q400" "10000 * q400 \<le> 25 * y - 40025"
    using c by linarith+
  show "3652425 * (y - 1970) - 12650 \<le> 10000 * DayFromYear y"
    unfolding d using a1 b1 c1 by (simp add: algebra_simps)
  show "10000 * DayFromYear y \<le> 3652425 * (y - 1970) + 14725"
    unfolding d using a1 b1 c1 by (simp add: algebra_simps)
qed

lemma YearFromTime_brackets:
  "DayFromYear (YearFromTime t) \<le> t div msPerDay"
  "t div msPerDay < DayFromYear (YearFromTime t + 1)"
proof -
  define d where "d = t div msPerDay"
  define k where "k = (d * 10000) div 3652425"
  define r where "r = (d * 10000) mod 3652425"
  have "3652425 * k + r = d * 10000"
    unfolding k_def r_def by (rule mult_div_mod_eq)
  moreover have "0 \<le> r" "r < 3652425"
    unfolding r_def by simp_all
  ultimately have k: "3652425 * k \<le> d * 10000" "d * 10000 < 3652425 * k + 3652425"
    by linarith+
  have lo: "DayFromYear (1970 + k - 1) \<le> d"
    using DayFromYear_bounds(2) [of "1970 + k - 1"] k by (simp add: algebra_simps)
  have hi: "d < DayFromYear (1970 + k + 2)"
    using DayFromYear_bounds(1) [of "1970 + k + 2"] k by (simp add: algebra_simps)
  have y: "YearFromTime t = (if d < DayFromYear (1970 + k) then 1970 + k - 1
         else if DayFromYear (1970 + k + 1) \<le> d then 1970 + k + 1 else 1970 + k)"
    by (simp add: YearFromTime_def Let_def d_def k_def)
  show "DayFromYear (YearFromTime t) \<le> t div msPerDay"
    unfolding y d_def [symmetric] using lo by auto
  show "t div msPerDay < DayFromYear (YearFromTime t + 1)"
    unfolding y d_def [symmetric] using hi by (auto simp: add.assoc)
qed

lemma mult_msPerDay_le_iff: "a * msPerDay \<le> t \<longleftrightarrow> a \<le> t div msPerDay"
proof -
  define q where "q = t div 86400000"
  define r where "r = t mod 86400000"
  have "86400000 * q + r = t"
    unfolding q_def r_def by (rule mult_div_mod_eq)
  moreover have "0 \<le> r" "r < 86400000"
    unfolding r_def by simp_all
  ultimately have t: "t = 86400000 * q + r" "0 \<le> r" "r < 86400000"
    by simp_all
  have "a * 86400000 \<le> t \<longleftrightarrow> a \<le> q"
  proof
    assume le: "a * 86400000 \<le> t"
    show "a \<le> q"
    proof (rule ccontr)
      assume "\<not> a \<le> q"
      then have "q + 1 \<le> a" by simp
      with t le show False by linarith
    qed
  next
    assume "a \<le> q"
    with t show "a * 86400000 \<le> t" by linarith
  qed
  then show ?thesis by (simp add: msPerDay_def q_def)
qed

lemma TimeFromYear_le_iff: "TimeFromYear y \<le> t \<longleftrightarrow> DayFromYear y \<le> t div msPerDay"
  using mult_msPerDay_le_iff [of "DayFromYear y" t] by (simp add: TimeFromYear_def mult.commute)

lemma YearFromTime_ge_iff: "y \<le> YearFromTime t \<longleftrightarrow> TimeFromYear y \<le> t"
proof
  assume "y \<le> YearFromTime t"
  then have "DayFromYear y \<le> DayFromYear (YearFromTime t)" by (rule DayFromYear_mono)
  with YearFromTime_brackets(1) [of t] show "TimeFromYear y \<le> t"
    by (simp add: TimeFromYear_le_iff)
next
  assume "TimeFromYear y \<le> t"
  then have "DayFromYear y < DayFromYear (YearFromTime t + 1)"
    using YearFromTime_brackets(2) [of t] by (simp add: TimeFromYear_le_iff)
  then show "y \<le> YearFromTime t" by (simp add: DayFromYear_less_iff)
qed

lemma YearFromTime_less_iff: "YearFromTime t < y \<longleftrightarrow> t < TimeFromYear y"
  using YearFromTime_ge_iff [of y t] by auto

lemma YearFromTime_le_iff: "YearFromTime t \<le> y \<longleftrightarrow> t < TimeFromYear (y + 1)"
  using YearFromTime_less_iff [of t "y + 1"] by auto

lemma YearFromTime_TimeFromYear: "YearFromTime (TimeFromYear y) = y"
proof -
  have "y \<le> YearFromTime (TimeFromYear y)" by (simp add: YearFromTime_ge_iff)
  moreover have "\<not> y + 1 \<le> YearFromTime (TimeFromYear y)"
    using DayFromYear_less_Suc [of y]
    by (simp add: YearFromTime_ge_iff TimeFromYear_def msPerDay_def)
  ultimately show ?thesis by simp
qed

text \<open>The day number of 1 January advances by the length of the year: the leap year
  rule used for the months agrees with the day arithmetic.\<close>

lemma div_Suc_int:
  fixes x m :: int
  assumes "0 < m"
  shows "(x + 1) div m = x div m + (if (x + 1) mod m = 0 then 1 else 0)"
proof -
  define q where "q = x div m"
  define r where "r = x mod m"
  have x: "x = q * m + r" and r: "0 \<le> r" "r < m"
    unfolding q_def r_def using assms by simp_all
  show ?thesis
  proof (cases "r + 1 = m")
    case True
    then have "x + 1 = (q + 1) * m" using x by (simp add: algebra_simps)
    then show ?thesis using assms by (simp add: q_def)
  next
    case False
    with r have r1: "0 \<le> r + 1" "r + 1 < m" by simp_all
    have e: "x + 1 = q * m + (r + 1)" using x by simp
    have "(x + 1) div m = q"
      unfolding e using r1 assms by (simp add: div_pos_pos_trivial)
    moreover have "(x + 1) mod m = r + 1"
      unfolding e using r1 assms by (simp add: mod_pos_pos_trivial)
    ultimately show ?thesis using r by (simp add: q_def)
  qed
qed


lemma DayFromYear_Suc: "DayFromYear (y + 1) = DayFromYear y + DaysInYear y"
proof -
  have a: "(y + 1 - 1969) div 4 = (y - 1969) div 4 + (if y mod 4 = 0 then 1 else 0)"
  proof -
    have "(y - 1968) mod 4 = y mod 4"
      using mod_diff_eq [of y 4 1968] by simp
    then show ?thesis
      using div_Suc_int [of 4 "y - 1969"] by (simp add: algebra_simps)
  qed
  have b: "(y + 1 - 1901) div 100 = (y - 1901) div 100 + (if y mod 100 = 0 then 1 else 0)"
  proof -
    have "(y - 1900) mod 100 = y mod 100"
      using mod_diff_eq [of y 100 1900] by simp
    then show ?thesis
      using div_Suc_int [of 100 "y - 1901"] by (simp add: algebra_simps)
  qed
  have c: "(y + 1 - 1601) div 400 = (y - 1601) div 400 + (if y mod 400 = 0 then 1 else 0)"
  proof -
    have "(y - 1600) mod 400 = y mod 400"
      using mod_diff_eq [of y 400 1600] by simp
    then show ?thesis
      using div_Suc_int [of 400 "y - 1601"] by (simp add: algebra_simps)
  qed
  have d1: "y mod 100 = 0" if "y mod 400 = 0"
  proof -
    from that have "400 dvd y" by (simp add: mod_eq_0_iff_dvd)
    then have "100 dvd y" using dvd_trans [of 100 400 y] by simp
    then show ?thesis by (simp add: mod_eq_0_iff_dvd)
  qed
  have d2: "y mod 4 = 0" if "y mod 100 = 0"
  proof -
    from that have "100 dvd y" by (simp add: mod_eq_0_iff_dvd)
    then have "4 dvd y" using dvd_trans [of 4 100 y] by simp
    then show ?thesis by (simp add: mod_eq_0_iff_dvd)
  qed
  define p where "p = (y - 1969) div 4"
  define q where "q = (y - 1901) div 100"
  define r where "r = (y - 1601) div 400"
  have l: "DayFromYear (y + 1) = 365 * (y + 1 - 1970)
             + (p + (if y mod 4 = 0 then 1 else 0))
             - (q + (if y mod 100 = 0 then 1 else 0))
             + (r + (if y mod 400 = 0 then 1 else 0))"
    unfolding p_def q_def r_def by (simp only: DayFromYear_def a b c)
  have m: "DayFromYear y = 365 * (y - 1970) + p - q + r"
    unfolding p_def q_def r_def by (simp only: DayFromYear_def)
  show ?thesis
  proof (cases "y mod 4 = 0")
    case False
    with d2 have n100: "y mod 100 \<noteq> 0" by auto
    with d1 have "y mod 400 \<noteq> 0" by auto
    note n100 this
    with False show ?thesis unfolding l m by (simp add: DaysInYear_def)
  next
    case 4: True
    show ?thesis
    proof (cases "y mod 100 = 0")
      case False
      with d1 have "y mod 400 \<noteq> 0" by auto
      with 4 False show ?thesis unfolding l m by (simp add: DaysInYear_def)
    next
      case True
      with 4 show ?thesis unfolding l m by (simp add: DaysInYear_def)
    qed
  qed
qed

section \<open>Properties of the viewport sanitizer\<close>

lemma validateDateFields_fields [simp]:
  "opt_start (validateDateFields tz w) = validateDateField tz True (opt_start w)"
  "opt_end (validateDateFields tz w) = validateDateField tz False (opt_end w)"
  "opt_min (validateDateFields tz w) = validateDateField tz True (opt_min w)"
  "opt_max (validateDateFields tz w) = validateDateField tz False (opt_max w)"
  "zoomMin (validateDateFields tz w) = zoomMin w"
  "zoomMax (validateDateFields tz w) = zoomMax w"
  "TimelineOptions.more (validateDateFields tz w) = TimelineOptions.more w"
  by (simp_all add: validateDateFields_def)

lemma ensureStartBeforeEnd_fields [simp]:
  "opt_start (ensureStartBeforeEnd w) = opt_start w"
  "opt_min (ensureStartBeforeEnd w) = opt_min w"
  "opt_max (ensureStartBeforeEnd w) = opt_max w"
  "zoomMin (ensureStartBeforeEnd w) = zoomMin w"
  "zoomMax (ensureStartBeforeEnd w) = zoomMax w"
  "TimelineOptions.more (ensureStartBeforeEnd w) = TimelineOptions.more w"
  by (simp_all add: ensureStartBeforeEnd_def split: option.splits)

lemma ensureStartBeforeEnd_end:
  "opt_end (ensureStartBeforeEnd w) =
     (case (opt_start w, opt_end w) of
        (Some s', Some e') \<Rightarrow>
          if tvGe (getTime s') (getTime e') then Some (newDateMs (tvShift (getTime s') oneYear))
          else Some e'
      | (_, e') \<Rightarrow> e')"
  by (simp add: ensureStartBeforeEnd_def split: option.splits)

lemma ensureMinBeforeMax_fields [simp]:
  "opt_start (ensureMinBeforeMax w) = opt_start w"
  "opt_end (ensureMinBeforeMax w) = opt_end w"
  "opt_min (ensureMinBeforeMax w) = reorderedMin (opt_min w) (opt_max w)"
  "opt_max (ensureMinBeforeMax w) = opt_max w"
  "zoomMin (ensureMinBeforeMax w) = zoomMin w"
  "zoomMax (ensureMinBeforeMax w) = zoomMax w"
  "TimelineOptions.more (ensureMinBeforeMax w) = TimelineOptions.more w"
  by (simp_all add: ensureMinBeforeMax_def reorderedMin_def split: option.splits)

lemma ensureReasonableSpan_fields [simp]:
  "opt_start (ensureReasonableSpan w) = opt_start w"
  "opt_end (ensureReasonableSpan w) = opt_end w"
  "opt_max (ensureReasonableSpan w) = opt_max w"
  "zoomMin (ensureReasonableSpan w) = zoomMin w"
  "zoomMax (ensureReasonableSpan w) = zoomMax w"
  "TimelineOptions.more (ensureReasonableSpan w) = TimelineOptions.more w"
  by (simp_all add: ensureReasonableSpan_def Let_def split: option.splits)

lemma oneYear_less: "\<not> (tvLess d oneYear \<and> tvGreater d (100 * oneYear))"
  by (cases d) (simp_all add: tvLess_def tvGreater_def oneYear_def)

lemma ensureReasonableSpan_min [simp]:
  "opt_min (ensureReasonableSpan w) = spannedMin (opt_min w) (opt_max w)"
proof (cases "opt_min w")
  case None
  then show ?thesis by (simp add: ensureReasonableSpan_def spannedMin_def)
next
  case (Some mn)
  note mn = this
  show ?thesis
  proof (cases "opt_max w")
    case None
    with mn show ?thesis by (simp add: ensureReasonableSpan_def spannedMin_def)
  next
    case (Some mx)
    with mn oneYear_less [of "tvDiff (getTime mx) (getTime mn)"] show ?thesis
      by (auto simp add: ensureReasonableSpan_def spannedMin_def Let_def)
  qed
qed

lemma validateZoomLimits_fields [simp]:
  "opt_start (validateZoomLimits w) = opt_start w"
  "opt_end (validateZoomLimits w) = opt_end w"
  "opt_min (validateZoomLimits w) = opt_min w"
  "opt_max (validateZoomLimits w) = opt_max w"
  "zoomMin (validateZoomLimits w) = sanitizedZoomMin (zoomMin w)"
  "zoomMax (validateZoomLimits w) = sanitizedZoomMax (zoomMax w) (zoomMin w)"
  "TimelineOptions.more (validateZoomLimits w) = TimelineOptions.more w"
  by (auto simp add: validateZoomLimits_def sanitizedZoomMin_def sanitizedZoomMax_def Let_def)

lemma sanitizeViewport_fields:
  "opt_start (sanitizeViewport tz w) = validateDateField tz True (opt_start w)"
  "opt_end (sanitizeViewport tz w) = sanitizedEnd tz (opt_start w) (opt_end w)"
  "opt_min (sanitizeViewport tz w) = sanitizedMin tz (opt_min w) (opt_max w)"
  "opt_max (sanitizeViewport tz w) = validateDateField tz False (opt_max w)"
  "zoomMin (sanitizeViewport tz w) = sanitizedZoomMin (zoomMin w)"
  "zoomMax (sanitizeViewport tz w) = sanitizedZoomMax (zoomMax w) (zoomMin w)"
  "TimelineOptions.more (sanitizeViewport tz w) = TimelineOptions.more w"
  by (simp_all add: sanitizeViewport_def ensureStartBeforeEnd_end sanitizedEnd_def sanitizedMin_def)

lemma TimeFromYear_values:
  "TimeFromYear 1900 = - 2208988800000" "TimeFromYear 2000 = 946684800000"
  "TimeFromYear 2030 = 1893456000000" "TimeFromYear 2101 = 4133980800000"
  by (simp_all add: TimeFromYear_def DayFromYear_def msPerDay_def)

lemma inRange_iff: "inRange tz t \<longleftrightarrow> - 2208988800000 \<le> t + tz \<and> t + tz < 4133980800000"
  by (simp add: inRange_def TimeFromYear_values)

lemma fallback_dates:
  assumes "okTz tz"
  shows "newDate tz 2000 0 1 0 = Some (946684800000 - tz)"
    and "newDate tz 2030 0 1 0 = Some (1893456000000 - tz)"
  using assms
  by (simp_all add: okTz_def newDate_def MakeDay_def MakeDate_def TimeClip_def DayFromYear_def
      daysBeforeMonth_def msPerDay_def msPerHour_def Let_def)

lemma year_test:
  "(YearFromTime (t + tz) < 1900 \<or> YearFromTime (t + tz) > 2100) \<longleftrightarrow> \<not> inRange tz t"
proof -
  have "YearFromTime (t + tz) > 2100 \<longleftrightarrow> TimeFromYear 2101 \<le> t + tz"
    using YearFromTime_ge_iff [of 2101 "t + tz"] by auto
  then show ?thesis
    by (auto simp add: inRange_def YearFromTime_less_iff)
qed

lemma validateDateField_None [simp]: "validateDateField tz lower None = None"
  by (simp add: validateDateField_def)

lemma validateDateField_Some:
  assumes "okTz tz"
  shows "validateDateField tz lower (Some d) = Some (Some (cleanValue tz lower d))"
proof (cases d)
  case None
  then show ?thesis
    using fallback_dates [OF assms]
    by (simp add: validateDateField_def getTime_def getFullYear_def cleanValue_def)
next
  case (Some t)
  then show ?thesis
    using fallback_dates [OF assms] year_test [of t tz]
    by (simp add: validateDateField_def getTime_def getFullYear_def cleanValue_def Let_def)
qed

lemma cleanValue_inRange:
  assumes "okTz tz"
  shows "inRange tz (cleanValue tz lower d)"
  using assms
  by (cases d) (simp_all add: cleanValue_def inRange_iff okTz_def msPerDay_def)

lemma cleanValue_idem: "inRange tz t \<Longrightarrow> cleanValue tz lower (Some t) = t"
  by (simp add: cleanValue_def)

lemma validateDateField_idem:
  assumes "okTz tz"
  shows "validateDateField tz lower (validateDateField tz lower x) = validateDateField tz lower x"
  using cleanValue_inRange [OF assms]
  by (cases x) (simp_all add: validateDateField_Some [OF assms] cleanValue_idem)

lemma newDateMs_small:
  assumes "\<bar>t\<bar> \<le> 8640000000000000"
  shows "newDateMs (Some t) = Some t"
  using assms by (simp add: newDateMs_def TimeClip_def)

lemma sanitizedEnd_Some:
  assumes "okTz tz"
  shows "sanitizedEnd tz (Some ds) (Some de) =
     Some (Some (if cleanValue tz True ds \<ge> cleanValue tz False de
                 then cleanValue tz True ds + oneYear else cleanValue tz False de))"
proof -
  have "inRange tz (cleanValue tz True ds)" by (rule cleanValue_inRange [OF assms])
  with assms have "\<bar>cleanValue tz True ds + oneYear\<bar> \<le> 8640000000000000"
    unfolding inRange_iff okTz_def msPerDay_def oneYear_def by linarith
  then have "newDateMs (Some (cleanValue tz True ds + oneYear)) = Some (cleanValue tz True ds + oneYear)"
    by (rule newDateMs_small)
  then show ?thesis
    by (simp add: sanitizedEnd_def validateDateField_Some [OF assms] tvGe_def tvShift_def getTime_def)
qed

lemma sanitizedEnd_None [simp]:
  "sanitizedEnd tz s None = None"
  "sanitizedEnd tz None e = validateDateField tz False e"
  by (simp_all add: sanitizedEnd_def split: option.splits)

lemma sanitizedEnd_idem:
  assumes "okTz tz"
  shows "sanitizedEnd tz (validateDateField tz True s) (sanitizedEnd tz s e) = sanitizedEnd tz s e"
proof (cases s)
  case None
  then show ?thesis by (simp add: validateDateField_idem [OF assms])
next
  case (Some ds)
  note s = this
  show ?thesis
  proof (cases e)
    case None
    then show ?thesis by simp
  next
    case (Some de)
    define a where "a = cleanValue tz True ds"
    define b where "b = cleanValue tz False de"
    have ra: "inRange tz a" and rb: "inRange tz b"
      unfolding a_def b_def by (rule cleanValue_inRange [OF assms])+
    have ca: "cleanValue tz True (Some a) = a" using ra by (rule cleanValue_idem)
    have cb: "cleanValue tz False (Some b) = b" using rb by (rule cleanValue_idem)
    have cc: "cleanValue tz False (Some (a + 31536000000)) =
                (if inRange tz (a + 31536000000) then a + 31536000000 else 1893456000000 - tz)"
      by (simp add: cleanValue_def)
    show ?thesis
      using ra rb assms
      unfolding s Some validateDateField_Some [OF assms] sanitizedEnd_Some [OF assms]
        a_def [symmetric] b_def [symmetric]
      by (auto simp add: ca cb cc inRange_iff oneYear_def okTz_def msPerDay_def)
  qed
qed

lemma sanitizedMin_Some:
  assumes "okTz tz"
  shows "sanitizedMin tz (Some dmn) (Some dmx) =
     Some (Some (minOf (cleanValue tz True dmn) (cleanValue tz False dmx)))"
proof -
  define mn where "mn = cleanValue tz True dmn"
  define mx where "mx = cleanValue tz False dmx"
  have "inRange tz mx" unfolding mx_def by (rule cleanValue_inRange [OF assms])
  with assms have "\<bar>mx - 315360000000\<bar> \<le> 8640000000000000"
    "\<bar>mx - 1576800000000\<bar> \<le> 8640000000000000"
    unfolding inRange_iff okTz_def msPerDay_def by linarith+
  then have n: "newDateMs (Some (mx - 315360000000)) = Some (mx - 315360000000)"
    "newDateMs (Some (mx - 1576800000000)) = Some (mx - 1576800000000)"
    by (simp_all add: newDateMs_small)
  show ?thesis
    unfolding sanitizedMin_def validateDateField_Some [OF assms] mn_def [symmetric] mx_def [symmetric]
    by (simp add: reorderedMin_def spannedMin_def tvGe_def tvShift_def tvDiff_def tvLess_def
        tvGreater_def getTime_def oneYear_def n minOf_def Let_def)
qed

lemma sanitizedMin_None [simp]:
  "sanitizedMin tz None mx = None"
  "sanitizedMin tz mn None = validateDateField tz True mn"
  by (simp_all add: sanitizedMin_def reorderedMin_def spannedMin_def split: option.splits)

lemma minOf_idem:
  assumes "okTz tz" "inRange tz mn" "inRange tz mx"
  shows "minOf (cleanValue tz True (Some (minOf mn mx))) mx = minOf mn mx"
  using assms
  by (auto simp add: minOf_def cleanValue_def Let_def inRange_iff okTz_def msPerDay_def oneYear_def)

lemma sanitizedMin_idem:
  assumes "okTz tz"
  shows "sanitizedMin tz (sanitizedMin tz mn mx) (validateDateField tz False mx) = sanitizedMin tz mn mx"
proof (cases mx)
  case None
  then show ?thesis by (simp add: validateDateField_idem [OF assms])
next
  case (Some dmx)
  note mx = this
  show ?thesis
  proof (cases mn)
    case None
    then show ?thesis by simp
  next
    case (Some dmn)
    have r: "inRange tz (cleanValue tz True dmn)" "inRange tz (cleanValue tz False dmx)"
      by (rule cleanValue_inRange [OF assms])+
    show ?thesis
      unfolding mx Some validateDateField_Some [OF assms] sanitizedMin_Some [OF assms]
      by (simp add: cleanValue_idem [OF r(2)] minOf_idem [OF assms r])
  qed
qed

lemma minOf_span:
  "minOf mn mx < mx" "oneYear \<le> mx - minOf mn mx" "mx - minOf mn mx \<le> 100 * oneYear"
  by (auto simp add: minOf_def Let_def oneYear_def)

lemma sanitizedZoomMin_idem: "sanitizedZoomMin (sanitizedZoomMin zn) = sanitizedZoomMin zn"
  by (cases zn) (simp_all add: sanitizedZoomMin_def isFiniteNum_def)

lemma sanitizedZoomMin_Fin: "\<exists>a. sanitizedZoomMin zn = Fin a \<and> 0 < a"
  by (cases zn) (simp_all add: sanitizedZoomMin_def isFiniteNum_def)

lemma sanitizedZoomMax_Fin:
  "\<exists>b. sanitizedZoomMax zx zn = Fin b \<and> 0 < b \<and> numLess (sanitizedZoomMin zn) (Fin b)"
proof -
  obtain a where a: "sanitizedZoomMin zn = Fin a" "0 < a"
    using sanitizedZoomMin_Fin by blast
  then show ?thesis
    by (cases zx) (auto simp add: sanitizedZoomMax_def isFiniteNum_def numTimes_def Let_def)
qed

lemma sanitizedZoomMax_idem:
  "sanitizedZoomMax (sanitizedZoomMax zx zn) (sanitizedZoomMin zn) = sanitizedZoomMax zx zn"
proof -
  obtain a where a: "sanitizedZoomMin zn = Fin a" "0 < a"
    using sanitizedZoomMin_Fin by blast
  obtain b where b: "sanitizedZoomMax zx zn = Fin b" "0 < b" "numLess (sanitizedZoomMin zn) (Fin b)"
    using sanitizedZoomMax_Fin by blast
  have "sanitizedZoomMin (Fin a) = Fin a"
    using sanitizedZoomMin_idem [of zn] a by simp
  then have "sanitizedZoomMax (Fin b) (Fin a) = Fin b"
    using a b by (simp add: sanitizedZoomMax_def isFiniteNum_def Let_def)
  with a b show ?thesis by simp
qed

section \<open>Properties of the calendar date builder\<close>

lemma daysBeforeMonth_bounds:
  assumes "0 \<le> m" "m \<le> 11"
  shows "0 \<le> daysBeforeMonth y m" and "daysBeforeMonth y m \<le> 335"
proof -
  let ?t = "[0, 31, 59, 90, 120, 151, 181, 212, 243, 273, 304, 334] :: int list"
  have "list_all (\<lambda>x. 0 \<le> x \<and> x \<le> 334) ?t" by simp
  moreover have "nat m < length ?t" using assms by simp
  ultimately have "0 \<le> ?t ! nat m \<and> ?t ! nat m \<le> 334"
    unfolding list_all_length by blast
  moreover have "daysBeforeMonth y m = ?t ! nat m + (if 2 \<le> m \<and> DaysInYear y = 366 then 1 else 0)"
    by (simp only: daysBeforeMonth_def)
  ultimately show "0 \<le> daysBeforeMonth y m" and "daysBeforeMonth y m \<le> 335"
    by (simp_all only: split: if_splits) linarith+
qed

lemma MakeDay_month:
  assumes "0 \<le> m" "m \<le> 11"
  shows "MakeDay y m d = DayFromYear y + daysBeforeMonth y m + d - 1"
  using assms by (simp add: MakeDay_def Let_def)

lemma newDate_eq:
  assumes "yr < 0 \<or> 99 < yr" "0 \<le> m" "m \<le> 11"
  shows "newDate tz yr m d h = TimeClip (localTimeValue yr m d h - tz)"
  using assms by (auto simp add: newDate_def MakeDay_month MakeDate_def localTimeValue_def Let_def)

lemma localTimeValue_range:
  assumes "okTz tz" "- 271820 \<le> yr" "yr \<le> 275759" "0 \<le> m" "m \<le> 11" "1 \<le> d" "d \<le> 31"
    "0 \<le> h" "h \<le> 23"
  shows "\<bar>localTimeValue yr m d h - tz\<bar> \<le> 8640000000000000"
proof -
  have b: "0 \<le> daysBeforeMonth yr m" "daysBeforeMonth yr m \<le> 335"
    using assms(4,5) by (rule daysBeforeMonth_bounds)+
  have lo: "- 99999750 \<le> DayFromYear yr"
    using DayFromYear_bounds(1) [of yr] assms(2) by (simp add: algebra_simps)
  have hi: "DayFromYear yr \<le> 99999400"
    using DayFromYear_bounds(2) [of yr] assms(3) by (simp add: algebra_simps)
  show ?thesis
    using b lo hi assms
    unfolding localTimeValue_def okTz_def msPerDay_def msPerHour_def
    by (simp add: algebra_simps abs_le_iff)
qed

lemma TimeClip_Some_iff: "TimeClip t = Some t' \<longleftrightarrow> t' = t \<and> \<bar>t\<bar> \<le> 8640000000000000"
  by (auto simp add: TimeClip_def)

lemma TimeClip_None_iff: "TimeClip t = None \<longleftrightarrow> \<bar>t\<bar> > 8640000000000000"
  by (simp add: TimeClip_def)

lemma buildTimelineDate_None [simp]: "buildTimelineDate tz None = None"
  by (simp add: buildTimelineDate_def)

lemma buildTimelineDate_out_of_bounds:
  "\<not> inBounds r \<Longrightarrow> buildTimelineDate tz (Some r) = None"
  by (auto simp add: buildTimelineDate_def inBounds_def)

lemma buildTimelineDate_native:
  assumes "inBounds r" "year r < 0 \<or> 1900 < year r"
  shows "buildTimelineDate tz (Some r) =
           (case newDate tz (year r) (month r) (day r) (hour r) of
              None \<Rightarrow> None | Some t \<Rightarrow> Some (Some t))"
  using assms
  by (auto simp add: buildTimelineDate_def inBounds_def getTime_def Let_def split: option.splits)

lemma buildTimelineDate_token:
  assumes "okTz tz" "inBounds r" "1 \<le> year r" "year r \<le> 1900"
  shows "buildTimelineDate tz (Some r) =
           (if day r \<le> daysInMonth (year r) (month r + 1)
            then Some (Some (localTimeValue (year r) (month r) (day r) (hour r) - tz))
            else None)"
proof -
  have "\<bar>localTimeValue (year r) (month r) (day r) (hour r) - tz\<bar> \<le> 8640000000000000"
    using assms by (intro localTimeValue_range) (simp_all add: inBounds_def)
  then have c: "TimeClip (localTimeValue (year r) (month r) (day r) (hour r) - tz)
                = Some (localTimeValue (year r) (month r) (day r) (hour r) - tz)"
    by (simp add: TimeClip_def)
  have m: "MakeDate (MakeDay (year r) (month r) (day r)) (hour r * msPerHour)
           = localTimeValue (year r) (month r) (day r) (hour r)"
    using assms(2) by (simp add: MakeDay_month MakeDate_def localTimeValue_def inBounds_def)
  show ?thesis
    using assms(2-4) c m
    by (simp add: buildTimelineDate_def inBounds_def luxonToISO_def getTime_def Let_def)
qed

lemma buildTimelineDate_native_in_range:
  assumes "okTz tz" "inBounds r" "year r < 0 \<or> 1900 < year r"
    "- 271820 \<le> year r" "year r \<le> 275759"
  shows "buildTimelineDate tz (Some r)
         = Some (Some (localTimeValue (year r) (month r) (day r) (hour r) - tz))"
proof -
  have "\<bar>localTimeValue (year r) (month r) (day r) (hour r) - tz\<bar> \<le> 8640000000000000"
    using assms by (intro localTimeValue_range) (simp_all add: inBounds_def)
  then have c: "TimeClip (localTimeValue (year r) (month r) (day r) (hour r) - tz)
                = Some (localTimeValue (year r) (month r) (day r) (hour r) - tz)"
    by (simp add: TimeClip_def)
  have "newDate tz (year r) (month r) (day r) (hour r)
        = TimeClip (localTimeValue (year r) (month r) (day r) (hour r) - tz)"
    using assms(2,3) by (intro newDate_eq) (auto simp add: inBounds_def)
  with c show ?thesis
    by (simp add: buildTimelineDate_native [OF assms(2,3)])
qed

text \<open>
  Claim C7, as amended.  For a host time zone offset of at most one day, the builder
  returns null exactly in these cases: null input; a component out of bounds (year 0,
  month outside \<open>[0, 11]\<close>, day outside \<open>[1, 31]\<close>, hour outside \<open>[0, 23]\<close>); a year in
  \<open>[1, 1900]\<close> with a day beyond the length of the month (the token-routed path validates
  the calendar date); a year below 0 or above 1900 whose instant has a not-a-number time
  value.  For a year below 0 or above 1900 the checks are bounds only: every in-bounds
  date with a year from -271820 to 275759 is accepted, day 30 of February included.
  In-bounds components with year -50, 1901 or 9999 are accepted; with year 1 or 1899 they
  are accepted exactly when the day exists in the month.
\<close>

theorem buildTimelineDate_null_cases:
  assumes "okTz tz"
  shows "buildTimelineDate tz None = None
       \<and> (buildTimelineDate tz (Some r) = None \<longleftrightarrow>
            \<not> inBounds r
          \<or> (1 \<le> year r \<and> year r \<le> 1900 \<and> daysInMonth (year r) (month r + 1) < day r)
          \<or> ((year r < 0 \<or> 1900 < year r)
              \<and> newDate tz (year r) (month r) (day r) (hour r) = None))
       \<and> (inBounds r \<and> (year r < 0 \<or> 1900 < year r) \<and> - 271820 \<le> year r \<and> year r \<le> 275759
            \<longrightarrow> buildTimelineDate tz (Some r) \<noteq> None)
       \<and> (inBounds r \<and> (year r = - 50 \<or> year r = 1901 \<or> year r = 9999)
            \<longrightarrow> buildTimelineDate tz (Some r) \<noteq> None)
       \<and> (inBounds r \<and> (year r = 1 \<or> year r = 1899)
            \<longrightarrow> (buildTimelineDate tz (Some r) \<noteq> None
                 \<longleftrightarrow> day r \<le> daysInMonth (year r) (month r + 1)))"
proof (intro conjI)
  show "buildTimelineDate tz None = None" by simp
next
  show "buildTimelineDate tz (Some r) = None \<longleftrightarrow>
            \<not> inBounds r
          \<or> (1 \<le> year r \<and> year r \<le> 1900 \<and> daysInMonth (year r) (month r + 1) < day r)
          \<or> ((year r < 0 \<or> 1900 < year r)
              \<and> newDate tz (year r) (month r) (day r) (hour r) = None)"
  proof (cases "inBounds r")
    case False
    then show ?thesis by (simp add: buildTimelineDate_out_of_bounds)
  next
    case True
    show ?thesis
    proof (cases "year r < 0 \<or> 1900 < year r")
      case True
      with \<open>inBounds r\<close> show ?thesis
        by (auto simp add: buildTimelineDate_native split: option.splits)
    next
      case False
      with \<open>inBounds r\<close> have "1 \<le> year r" "year r \<le> 1900"
        by (auto simp add: inBounds_def)
      with \<open>inBounds r\<close> False show ?thesis
        by (auto simp add: buildTimelineDate_token [OF assms])
    qed
  qed
next
  show "inBounds r \<and> (year r < 0 \<or> 1900 < year r) \<and> - 271820 \<le> year r \<and> year r \<le> 275759
            \<longrightarrow> buildTimelineDate tz (Some r) \<noteq> None"
    by (auto simp add: buildTimelineDate_native_in_range [OF assms])
next
  show "inBounds r \<and> (year r = - 50 \<or> year r = 1901 \<or> year r = 9999)
            \<longrightarrow> buildTimelineDate tz (Some r) \<noteq> None"
    by (auto simp add: buildTimelineDate_native_in_range [OF assms])
next
  show "inBounds r \<and> (year r = 1 \<or> year r = 1899)
            \<longrightarrow> (buildTimelineDate tz (Some r) \<noteq> None
                 \<longleftrightarrow> day r \<le> daysInMonth (year r) (month r + 1))"
    by (auto simp add: buildTimelineDate_token [OF assms] split: if_splits)
qed

lemma okTz_0: "okTz 0"
  by (simp add: okTz_def msPerDay_def)

lemma components_simps [simp]:
  "year (components y m d h) = y" "month (components y m d h) = m"
  "day (components y m d h) = d" "hour (components y m d h) = h"
  by (simp_all add: components_def)

lemma buildTimelineDate_feb30_1899: "buildTimelineDate 0 (Some (components 1899 1 30 0)) = None"
  by (simp add: buildTimelineDate_token [OF okTz_0] inBounds_def daysInMonth_def DaysInYear_def)

lemma buildTimelineDate_feb30_2025:
  "buildTimelineDate 0 (Some (components 2025 1 30 0)) = Some (Some 1740873600000)"
  by (simp add: buildTimelineDate_native_in_range [OF okTz_0] inBounds_def localTimeValue_def
      DayFromYear_def daysBeforeMonth_def DaysInYear_def msPerDay_def msPerHour_def)

theorem buildTimelineDate_null_cases_witness:
  "buildTimelineDate 0 (Some (components 2025 1 30 0)) = Some (Some 1740873600000)
   \<and> buildTimelineDate 0 (Some (components 1899 1 30 0)) = None
   \<and> buildTimelineDate 0 (Some (components 1899 1 28 0)) \<noteq> None
   \<and> buildTimelineDate 0 (Some (components 2025 12 1 0)) = None"
proof -
  have i: "inBounds (components 1899 1 28 0)" "\<not> inBounds (components 2025 12 1 0)"
    by (simp_all add: inBounds_def)
  have y: "year (components 1899 1 28 0) = 1 \<or> year (components 1899 1 28 0) = 1899"
    by simp
  have d: "day (components 1899 1 28 0)
           \<le> daysInMonth (year (components 1899 1 28 0)) (month (components 1899 1 28 0) + 1)"
    by (simp add: daysInMonth_def DaysInYear_def)
  have a: "buildTimelineDate 0 (Some (components 1899 1 28 0)) \<noteq> None"
    using buildTimelineDate_null_cases [OF okTz_0, of "components 1899 1 28 0"] i(1) y d
    by blast
  have b: "buildTimelineDate 0 (Some (components 2025 12 1 0)) = None"
    using buildTimelineDate_null_cases [OF okTz_0, of "components 2025 12 1 0"] i(2)
    by blast
  show ?thesis
    using a b by (simp add: buildTimelineDate_feb30_1899 buildTimelineDate_feb30_2025)
qed

text \<open>
  Claim C7 as stated fails: 30 February 1899 has every component in bounds and the year
  lies in the token-routed range, where no date object with a not-a-number time value is
  ever built; the builder returns null.
\<close>

theorem buildTimelineDate_null_cases_counterexample:
  "buildTimelineDate 0 (Some (components 1899 1 30 0)) = None
   \<and> year (components 1899 1 30 0) \<noteq> 0
   \<and> 0 \<le> month (components 1899 1 30 0) \<and> month (components 1899 1 30 0) \<le> 11
   \<and> 1 \<le> day (components 1899 1 30 0) \<and> day (components 1899 1 30 0) \<le> 31
   \<and> 0 \<le> hour (components 1899 1 30 0) \<and> hour (components 1899 1 30 0) \<le> 23
   \<and> luxonToISO 0 1899 (1 + 1) 30 0 = None"
  by (simp add: buildTimelineDate_feb30_1899 luxonToISO_def daysInMonth_def DaysInYear_def)

section \<open>Properties of the item assembler\<close>

lemma assembleItem_start_null:
  "buildTimelineDate tz (Some (ev_startDate ev)) = None \<Longrightarrow> assembleItem tz currentYear ev = None"
  by (simp add: assembleItem_def)

text \<open>The assembler on an event whose start and end both build to valid dates.\<close>

lemma assembleItem_both_valid:
  assumes "buildTimelineDate tz (Some (ev_startDate ev)) = Some (Some s)"
    and "normalizedDateString (ev_endDate ev) \<noteq> []"
    and "buildTimelineDate tz (Some (ev_endDate ev)) = Some (Some e)"
  shows "assembleItem tz currentYear ev =
     (if YearFromTime (s + tz) < 1 \<or> YearFromTime (s + tz) > currentYear + 1000 then None
      else Some \<lparr> item_start = Some s,
                  item_end = (if e \<le> s then None
                              else if YearFromTime (e + tz) < 1 \<or> YearFromTime (e + tz) > currentYear + 1000
                              then None else Some (Some e)),
                  item_type = validateTimelineType (ev_type ev) \<rparr>)"
  using assms
  by (simp add: assembleItem_def getTime_def getFullYear_def tvGe_def Let_def)

lemma assembleItem_start_extreme:
  assumes "buildTimelineDate tz (Some (ev_startDate ev)) = Some (Some s)"
    and "YearFromTime (s + tz) < 1 \<or> YearFromTime (s + tz) > currentYear + 1000"
  shows "assembleItem tz currentYear ev = None"
  using assms
  by (simp add: assembleItem_def getTime_def getFullYear_def Let_def split: prod.splits)

text \<open>
  Claim C4, as amended.  Let the start of an event build to a valid instant \<open>s\<close> and its
  end to a valid instant \<open>e \<le> s\<close>.  If the local year of \<open>s\<close> lies in
  \<open>[1, currentYear + 1000]\<close>, the event is kept, with its start, without an end, and with
  its validated type.  The event is rejected only when the year of the start lies
  outside that range, which is a rejection that does not depend on the end.
\<close>

theorem assembleItem_demotes_end_before_start:
  assumes "buildTimelineDate tz (Some (ev_startDate ev)) = Some (Some s)"
    and "normalizedDateString (ev_endDate ev) \<noteq> []"
    and "buildTimelineDate tz (Some (ev_endDate ev)) = Some (Some e)"
    and "e \<le> s"
  shows "(1 \<le> YearFromTime (s + tz) \<and> YearFromTime (s + tz) \<le> currentYear + 1000
          \<longrightarrow> assembleItem tz currentYear ev
              = Some \<lparr> item_start = Some s, item_end = None,
                       item_type = validateTimelineType (ev_type ev) \<rparr>)
       \<and> (assembleItem tz currentYear ev = None
          \<longleftrightarrow> YearFromTime (s + tz) < 1 \<or> YearFromTime (s + tz) > currentYear + 1000)"
  using assms(4) by (auto simp add: assembleItem_both_valid [OF assms(1-3)])

lemma build_year_start:
  "buildTimelineDate 0 (Some (components 5000 0 1 0)) = Some (Some 95617584000000)"
  "buildTimelineDate 0 (Some (components 4999 0 1 0)) = Some (Some 95586048000000)"
  "buildTimelineDate 0 (Some (components 2000 0 1 0)) = Some (Some 946684800000)"
  "buildTimelineDate 0 (Some (components 1999 0 1 0)) = Some (Some 915148800000)"
  by (simp_all add: buildTimelineDate_native_in_range [OF okTz_0] inBounds_def localTimeValue_def
      DayFromYear_def daysBeforeMonth_def DaysInYear_def msPerDay_def msPerHour_def)

lemma buildTimelineDate_strings:
  "buildTimelineDate tz (Some (r \<lparr> normalizedDateString := n \<rparr>)) = buildTimelineDate tz (Some r)"
  by (simp add: buildTimelineDate_def)

lemma eventOf_simps [simp]:
  "buildTimelineDate tz (Some (ev_startDate (eventOf a b ty))) = buildTimelineDate tz (Some a)"
  "buildTimelineDate tz (Some (ev_endDate (eventOf a b ty))) = buildTimelineDate tz (Some b)"
  "normalizedDateString (ev_endDate (eventOf a b ty)) = ''end''"
  "ev_type (eventOf a b ty) = ty"
  by (simp_all add: eventOf_def buildTimelineDate_strings)

lemma YearFromTime_examples:
  "YearFromTime 95617584000000 = 5000" "YearFromTime 95586048000000 = 4999"
  "YearFromTime 946684800000 = 2000" "YearFromTime 915148800000 = 1999"
  by (simp_all add: YearFromTime_def DayFromYear_def msPerDay_def Let_def)

theorem assembleItem_demotes_end_before_start_witness:
  "assembleItem 0 2025 (eventOf (components 2000 0 1 0) (components 1999 0 1 0) (Some ''range''))
   = Some \<lparr> item_start = Some 946684800000, item_end = None, item_type = ''range'' \<rparr>"
proof -
  have n: "normalizedDateString
             (ev_endDate (eventOf (components 2000 0 1 0) (components 1999 0 1 0) (Some ''range''))) \<noteq> []"
    by simp
  have s: "buildTimelineDate 0
             (Some (ev_startDate (eventOf (components 2000 0 1 0) (components 1999 0 1 0) (Some ''range''))))
           = Some (Some 946684800000)"
    by (simp add: build_year_start)
  have e: "buildTimelineDate 0
             (Some (ev_endDate (eventOf (components 2000 0 1 0) (components 1999 0 1 0) (Some ''range''))))
           = Some (Some 915148800000)"
    by (simp add: build_year_start)
  have le: "(915148800000::int) \<le> 946684800000" by simp
  have v: "validateTimelineType (Some ''range'') = ''range''"
    by (simp add: validateTimelineType_def)
  show ?thesis
    using assembleItem_demotes_end_before_start [OF s n e le, of 2025]
    by (simp add: YearFromTime_examples v)
qed

text \<open>
  Claim C4 as stated fails: an event from 1 January 5000 to 1 January 4999 has a valid
  start, a valid end and end \<open>\<le>\<close> start, and it is rejected (in year 2025), because the
  year of its start exceeds the current year by more than 1000.
\<close>

theorem assembleItem_demotes_end_before_start_counterexample:
  "buildTimelineDate 0
     (Some (ev_startDate (eventOf (components 5000 0 1 0) (components 4999 0 1 0) (Some ''range''))))
     = Some (Some 95617584000000)
   \<and> buildTimelineDate 0
     (Some (ev_endDate (eventOf (components 5000 0 1 0) (components 4999 0 1 0) (Some ''range''))))
     = Some (Some 95586048000000)
   \<and> (95586048000000::int) \<le> 95617584000000
   \<and> assembleItem 0 2025 (eventOf (components 5000 0 1 0) (components 4999 0 1 0) (Some ''range''))
     = None"
proof -
  have "assembleItem 0 2025 (eventOf (components 5000 0 1 0) (components 4999 0 1 0) (Some ''range''))
     = None"
    by (rule assembleItem_start_extreme [where s = 95617584000000])
       (simp_all add: build_year_start YearFromTime_examples)
  then show ?thesis by (simp add: build_year_start)
qed

text \<open>
  Claim C5.  If the start of an event builds to a valid instant whose local year is below
  1 or above \<open>currentYear + 1000\<close>, the event is rejected, whatever its other fields.  If
  the year of the start lies in that range and the end builds to a valid instant whose
  year lies outside it, the event is kept, with its start, without an end, and with its
  validated type.
\<close>

theorem assembleItem_extreme_years:
  "(buildTimelineDate tz (Some (ev_startDate ev)) = Some (Some s)
      \<and> getFullYear tz (Some s) = Some y \<and> (y < 1 \<or> y > currentYear + 1000)
     \<longrightarrow> assembleItem tz currentYear ev = None)
   \<and> (buildTimelineDate tz (Some (ev_startDate ev)) = Some (Some s)
      \<and> getFullYear tz (Some s) = Some y \<and> 1 \<le> y \<and> y \<le> currentYear + 1000
      \<and> normalizedDateString (ev_endDate ev) \<noteq> []
      \<and> buildTimelineDate tz (Some (ev_endDate ev)) = Some (Some e)
      \<and> getFullYear tz (Some e) = Some ye \<and> (ye < 1 \<or> ye > currentYear + 1000)
     \<longrightarrow> assembleItem tz currentYear ev
         = Some \<lparr> item_start = Some s, item_end = None,
                  item_type = validateTimelineType (ev_type ev) \<rparr>)"
proof (intro conjI impI)
  assume a: "buildTimelineDate tz (Some (ev_startDate ev)) = Some (Some s)
      \<and> getFullYear tz (Some s) = Some y \<and> (y < 1 \<or> y > currentYear + 1000)"
  then have "YearFromTime (s + tz) < 1 \<or> YearFromTime (s + tz) > currentYear + 1000"
    by (auto simp add: getFullYear_def)
  with a show "assembleItem tz currentYear ev = None"
    by (intro assembleItem_start_extreme [where s = s]) simp_all
next
  assume a: "buildTimelineDate tz (Some (ev_startDate ev)) = Some (Some s)
      \<and> getFullYear tz (Some s) = Some y \<and> 1 \<le> y \<and> y \<le> currentYear + 1000
      \<and> normalizedDateString (ev_endDate ev) \<noteq> []
      \<and> buildTimelineDate tz (Some (ev_endDate ev)) = Some (Some e)
      \<and> getFullYear tz (Some e) = Some ye \<and> (ye < 1 \<or> ye > currentYear + 1000)"
  then have s: "buildTimelineDate tz (Some (ev_startDate ev)) = Some (Some s)"
    and n: "normalizedDateString (ev_endDate ev) \<noteq> []"
    and e: "buildTimelineDate tz (Some (ev_endDate ev)) = Some (Some e)"
    by simp_all
  from a have "y = YearFromTime (s + tz)" "ye = YearFromTime (e + tz)"
    by (auto simp add: getFullYear_def)
  with a show "assembleItem tz currentYear ev
         = Some \<lparr> item_start = Some s, item_end = None,
                  item_type = validateTimelineType (ev_type ev) \<rparr>"
    by (auto simp add: assembleItem_both_valid [OF s n e])
qed

theorem assembleItem_extreme_years_witness:
  "assembleItem 0 2025 (eventOf (components 5000 0 1 0) (components 4999 0 1 0) None) = None
   \<and> assembleItem 0 2025 (eventOf (components 2000 0 1 0) (components 5000 0 1 0) None)
     = Some \<lparr> item_start = Some 946684800000, item_end = None, item_type = ''box'' \<rparr>"
proof -
  have v: "validateTimelineType None = ''box''"
    by (simp add: validateTimelineType_def)
  have 1: "assembleItem 0 2025 (eventOf (components 5000 0 1 0) (components 4999 0 1 0) None) = None"
    using assembleItem_extreme_years
      [of 0 "eventOf (components 5000 0 1 0) (components 4999 0 1 0) None" 95617584000000 5000 2025]
    by (simp add: build_year_start getFullYear_def YearFromTime_examples)
  have 2: "assembleItem 0 2025 (eventOf (components 2000 0 1 0) (components 5000 0 1 0) None)
     = Some \<lparr> item_start = Some 946684800000, item_end = None, item_type = ''box'' \<rparr>"
    using assembleItem_extreme_years
      [of 0 "eventOf (components 2000 0 1 0) (components 5000 0 1 0) None" 946684800000 2000 2025
          95617584000000 5000]
    by (simp add: build_year_start getFullYear_def YearFromTime_examples v)
  from 1 2 show ?thesis by simp
qed

section \<open>Properties of the default argument builder\<close>

lemma digitChar_values:
  "digitChar 0 = CHR ''0''" "digitChar 1 = CHR ''1''" "digitChar 2 = CHR ''2''"
  "digitChar 3 = CHR ''3''" "digitChar 4 = CHR ''4''" "digitChar 5 = CHR ''5''"
  "digitChar 6 = CHR ''6''" "digitChar 7 = CHR ''7''" "digitChar 8 = CHR ''8''"
  "digitChar 9 = CHR ''9''" "digitChar (Suc 0) = CHR ''1''"
  by code_simp+

lemma less_ten_cases:
  fixes d :: nat
  assumes "d < 10"
  shows "d = 0 \<or> d = 1 \<or> d = 2 \<or> d = 3 \<or> d = 4 \<or> d = 5 \<or> d = 6 \<or> d = 7 \<or> d = 8 \<or> d = 9"
  using assms by presburger

lemma isDigit_digitChar: "d < 10 \<Longrightarrow> isDigit (digitChar d)"
  using less_ten_cases [of d] by (auto simp add: digitChar_values isDigit_def)

lemma digitVal_digitChar: "d < 10 \<Longrightarrow> digitVal (digitChar d) = int d"
  using less_ten_cases [of d] by (auto simp add: digitChar_values digitVal_def)

lemma natToString_digits: "\<forall>ch \<in> set (natToString n). isDigit ch"
proof (induction n rule: natToString.induct)
  case (1 n)
  show ?case
  proof (cases "n < 10")
    case True
    then show ?thesis by (simp add: natToString.simps [of n] isDigit_digitChar)
  next
    case False
    with 1 show ?thesis by (simp add: natToString.simps [of n] isDigit_digitChar)
  qed
qed

lemma natToString_value:
  "foldl (\<lambda>acc ch. 10 * acc + digitVal ch) 0 (natToString n) = int n"
proof (induction n rule: natToString.induct)
  case (1 n)
  show ?case
  proof (cases "n < 10")
    case True
    then show ?thesis by (simp add: natToString.simps [of n] digitVal_digitChar)
  next
    case False
    with 1 have "foldl (\<lambda>acc ch. 10 * acc + digitVal ch) 0 (natToString n)
                 = 10 * int (n div 10) + int (n mod 10)"
      by (simp add: natToString.simps [of n] digitVal_digitChar)
    also have "\<dots> = int n" by presburger
    finally show ?thesis .
  qed
qed

lemma natToString_nonempty: "natToString n \<noteq> []"
  by (cases "n < 10") (simp_all add: natToString.simps [of n])

lemma natToString_length: "n < 10000 \<Longrightarrow> length (natToString n) \<le> 4"
proof -
  assume n: "n < 10000"
  have a: "\<And>k. k < 10 \<Longrightarrow> length (natToString k) = 1"
    by (simp add: natToString.simps)
  have b: "\<And>k. k < 100 \<Longrightarrow> length (natToString k) \<le> 2"
  proof -
    fix k :: nat assume "k < 100"
    then have "k div 10 < 10" by simp
    then show "length (natToString k) \<le> 2"
      using a [of "k div 10"] a [of k] by (cases "k < 10") (simp_all add: natToString.simps [of k])
  qed
  have c: "\<And>k. k < 1000 \<Longrightarrow> length (natToString k) \<le> 3"
  proof -
    fix k :: nat assume "k < 1000"
    then have "k div 10 < 100" by simp
    then show "length (natToString k) \<le> 3"
      using b [of "k div 10"] a [of k] by (cases "k < 10") (simp_all add: natToString.simps [of k])
  qed
  from n have "n div 10 < 1000" by simp
  then show ?thesis
    using c [of "n div 10"] a [of n] by (cases "n < 10") (simp_all add: natToString.simps [of n])
qed

lemma parseInt_digits:
  assumes "\<forall>ch \<in> set s. isDigit ch" "s \<noteq> []"
  shows "parseInt s = Some (foldl (\<lambda>acc ch. 10 * acc + digitVal ch) 0 s)"
proof -
  have tw: "takeWhile isDigit s = s" using assms(1) by (simp add: takeWhile_eq_all_conv)
  show ?thesis unfolding parseInt_def Let_def tw using assms(2) by simp
qed

text \<open>The pipeline on the decimal form of a year from 1 to 9999, when the year width is
  at least four and the other widths are not negative: the result is 1 January of that
  year, 0:00 local time.\<close>

lemma parse_year_literal:
  assumes "1 \<le> n" "n \<le> 9999" "4 \<le> yearLength c" "0 \<le> monthLength c" "0 \<le> dayLength c"
    "0 \<le> hourLength c" "0 \<le> minuteLength c"
  shows "parseSimplifiedDate (toString n) c False ''box'' = Some (createDateResult n 1 1 0 0 (toString n))"
proof -
  define s where "s = natToString (nat n)"
  have ts: "toString n = s" using assms(1) by (simp add: toString_def s_def)
  have dg: "\<forall>ch \<in> set s. isDigit ch" unfolding s_def by (rule natToString_digits)
  have ne: "s \<noteq> []" unfolding s_def by (rule natToString_nonempty)
  have ln: "length s \<le> 4" unfolding s_def using assms(1,2) by (intro natToString_length) simp
  have "foldl (\<lambda>acc ch. 10 * acc + digitVal ch) 0 s = int (nat n)"
    unfolding s_def by (rule natToString_value)
  with assms(1) have pv: "parseInt s = Some n"
    by (simp add: parseInt_digits [OF dg ne])
  have f: "filter isDigit s = s" using dg by (rule filter_isDigit_id)
  have l: "int (length s) \<le> yearLength c" using ln assms(3) by linarith
  have y: "yearStrOf c s = s"
    using l assms(3) by (simp add: yearStrOf_def f substring_nonneg)
  have r: "monthStrOf c s = []" "dayStrOf c s = []" "hourStrOf c s = []" "minuteStrOf c s = []"
    using l assms(3-7)
    by (simp_all add: monthStrOf_def dayStrOf_def hourStrOf_def minuteStrOf_def f substring_beyond)
  show ?thesis
    unfolding ts using ne pv assms(1)
    by (simp add: parseSimplifiedDate_unfold y r orZero_def)
qed

lemma inBounds_createDateResult_jan1:
  "n \<noteq> 0 \<Longrightarrow> inBounds (createDateResult n 1 1 0 0 s)"
  by (simp add: inBounds_def hour_createDateResult_zero)

lemma localTimeValue_jan1: "localTimeValue n 0 1 0 = TimeFromYear n"
  by (simp add: localTimeValue_def daysBeforeMonth_def TimeFromYear_def mult.commute)

lemma build_year_literal:
  assumes "okTz tz" "1 \<le> n" "n \<le> 9999"
  shows "buildTimelineDate tz (Some (createDateResult n 1 1 0 0 s)) = Some (Some (TimeFromYear n - tz))"
proof (cases "1900 < n")
  case True
  with assms show ?thesis
    by (simp add: buildTimelineDate_native_in_range inBounds_createDateResult_jan1
        hour_createDateResult_zero localTimeValue_jan1)
next
  case False
  with assms show ?thesis
    by (simp add: buildTimelineDate_token inBounds_createDateResult_jan1
        hour_createDateResult_zero localTimeValue_jan1 daysInMonth_def)
qed

lemma getFullYear_TimeFromYear: "getFullYear tz (Some (TimeFromYear n - tz)) = Some n"
  by (simp add: getFullYear_def YearFromTime_TimeFromYear)

lemma default_date_of_year:
  assumes "okTz tz" "1 \<le> n" "n \<le> 9999" "4 \<le> yearLength c" "0 \<le> monthLength c"
    "0 \<le> dayLength c" "0 \<le> hourLength c" "0 \<le> minuteLength c"
  shows "(case buildTimelineDate tz (parseSimplifiedDate (toString n) c False ''box'') of
            Some d \<Rightarrow> d | None \<Rightarrow> newDate tz n 0 1 0) = Some (TimeFromYear n - tz)"
  by (simp add: parse_year_literal [OF assms(2-8)] build_year_literal [OF assms(1-3)])


text \<open>
  For a year width of at least four (other widths not negative), a host clock year from
  1970 to 9899 and a time zone offset of at most a day, the four default dates are the
  first instants of the years \<open>max(1900, currentYear - 50)\<close>, \<open>currentYear + 50\<close>,
  \<open>max(1800, currentYear - 100)\<close> and \<open>currentYear + 100\<close>; the zoom limits are 10 and
  315360000000001 for every settings object.
\<close>

lemma setDefaultArgs_years:
  assumes "okTz tz" "1970 \<le> currentYear" "currentYear \<le> 9899"
    and "4 \<le> yearLength (dateParsingConfig settings)"
    and "0 \<le> monthLength (dateParsingConfig settings)"
    and "0 \<le> dayLength (dateParsingConfig settings)"
    and "0 \<le> hourLength (dateParsingConfig settings)"
    and "0 \<le> minuteLength (dateParsingConfig settings)"
  shows "getFullYear tz (startDate (setDefaultArgs tz currentYear settings))
           = Some (max 1900 (currentYear - 50))"
    and "getFullYear tz (endDate (setDefaultArgs tz currentYear settings))
           = Some (currentYear + 50)"
    and "getFullYear tz (minDate (setDefaultArgs tz currentYear settings))
           = Some (max 1800 (currentYear - 100))"
    and "getFullYear tz (maxDate (setDefaultArgs tz currentYear settings))
           = Some (currentYear + 100)"
proof -
  note d = default_date_of_year [OF assms(1) _ _ assms(4-8)]
  have 1: "1 \<le> max 1900 (currentYear - 50)" "max 1900 (currentYear - 50) \<le> 9999"
    "1 \<le> currentYear + 50" "currentYear + 50 \<le> 9999"
    "1 \<le> max 1800 (currentYear - 100)" "max 1800 (currentYear - 100) \<le> 9999"
    "1 \<le> currentYear + 100" "currentYear + 100 \<le> 9999"
    using assms(2,3) by simp_all
  show "getFullYear tz (startDate (setDefaultArgs tz currentYear settings))
           = Some (max 1900 (currentYear - 50))"
    by (simp add: setDefaultArgs_def Let_def d [OF 1(1,2)] getFullYear_TimeFromYear)
  show "getFullYear tz (endDate (setDefaultArgs tz currentYear settings))
           = Some (currentYear + 50)"
    by (simp add: setDefaultArgs_def Let_def d [OF 1(3,4)] getFullYear_TimeFromYear)
  show "getFullYear tz (minDate (setDefaultArgs tz currentYear settings))
           = Some (max 1800 (currentYear - 100))"
    by (simp add: setDefaultArgs_def Let_def d [OF 1(5,6)] getFullYear_TimeFromYear)
  show "getFullYear tz (maxDate (setDefaultArgs tz currentYear settings))
           = Some (currentYear + 100)"
    by (simp add: setDefaultArgs_def Let_def d [OF 1(7,8)] getFullYear_TimeFromYear)
qed

lemma setDefaultArgs_zoom:
  "zoomOutLimit (setDefaultArgs tz currentYear settings) = Fin 315360000000001"
  "zoomInLimit (setDefaultArgs tz currentYear settings) = Fin 10"
  by (simp_all add: setDefaultArgs_def Let_def)


text \<open>The window that the render pass takes from the default arguments of year 2025 under
  the widths (4,2,2,2,2).\<close>

lemma default_window_2025:
  "optionsOfArgs (setDefaultArgs 0 2025 (settingsOf 4 2 2 2 2))
   = \<lparr> opt_start = Some (Some 157766400000), opt_end = Some (Some 3313526400000),
       opt_min = Some (Some (- 1420070400000)), opt_max = Some (Some 4891363200000),
       zoomMax = Fin 315360000000001, zoomMin = Fin 10 \<rparr>"
proof -
  have c: "4 \<le> yearLength (dateParsingConfig (settingsOf 4 2 2 2 2))"
    "0 \<le> monthLength (dateParsingConfig (settingsOf 4 2 2 2 2))"
    "0 \<le> dayLength (dateParsingConfig (settingsOf 4 2 2 2 2))"
    "0 \<le> hourLength (dateParsingConfig (settingsOf 4 2 2 2 2))"
    "0 \<le> minuteLength (dateParsingConfig (settingsOf 4 2 2 2 2))"
    by (simp_all add: settingsOf_def)
  note d = default_date_of_year [OF okTz_0 _ _ c]
  have t: "TimeFromYear 1975 = 157766400000" "TimeFromYear 2075 = 3313526400000"
    "TimeFromYear 1925 = - 1420070400000" "TimeFromYear 2125 = 4891363200000"
    by (simp_all add: TimeFromYear_def DayFromYear_def msPerDay_def)
  show ?thesis
    using d [of 1975] d [of 2075] d [of 1925] d [of 2125]
    by (simp add: optionsOfArgs_def setDefaultArgs_def Let_def t)
qed

text \<open>The pipeline under the widths (3,2,2,2,2): the literal \<^verbatim>\<open>1975\<close> is read as year 197,
  month 5.\<close>

lemma toString_examples:
  "toString 1975 = ''1975''" "toString 2075 = ''2075''" "toString 1925 = ''1925''"
  "toString 2125 = ''2125''"
  by code_simp+

lemma parse_short_year_width:
  "parseSimplifiedDate ''1975'' (dateParsingConfig (settingsOf 3 2 2 2 2)) False ''box''
     = Some (createDateResult 197 5 1 0 0 ''1975'')"
  "parseSimplifiedDate ''2075'' (dateParsingConfig (settingsOf 3 2 2 2 2)) False ''box''
     = Some (createDateResult 207 5 1 0 0 ''2075'')"
  "parseSimplifiedDate ''1925'' (dateParsingConfig (settingsOf 3 2 2 2 2)) False ''box''
     = Some (createDateResult 192 5 1 0 0 ''1925'')"
  "parseSimplifiedDate ''2125'' (dateParsingConfig (settingsOf 3 2 2 2 2)) False ''box''
     = Some (createDateResult 212 5 1 0 0 ''2125'')"
  by (simp_all add: parseSimplifiedDate_unfold yearStrOf_def monthStrOf_def dayStrOf_def
      hourStrOf_def minuteStrOf_def settingsOf_def substring_def isDigit_def parseInt_def
      digitVal_def orZero_def)

lemma build_short_year_width:
  "buildTimelineDate 0 (Some (createDateResult 197 5 1 0 0 s)) = Some (Some (- 55940025600000))"
  "buildTimelineDate 0 (Some (createDateResult 207 5 1 0 0 s)) = Some (Some (- 55624579200000))"
  "buildTimelineDate 0 (Some (createDateResult 192 5 1 0 0 s)) = Some (Some (- 56097792000000))"
  "buildTimelineDate 0 (Some (createDateResult 212 5 1 0 0 s)) = Some (Some (- 55466726400000))"
  by (simp_all add: buildTimelineDate_token [OF okTz_0] inBounds_def hour_createDateResult_zero
      daysInMonth_def localTimeValue_def DayFromYear_def daysBeforeMonth_def DaysInYear_def
      msPerDay_def msPerHour_def)

lemma YearFromTime_short_year_width:
  "YearFromTime (- 55940025600000) = 197" "YearFromTime (- 55624579200000) = 207"
  "YearFromTime (- 56097792000000) = 192" "YearFromTime (- 55466726400000) = 212"
  by (simp_all add: YearFromTime_def DayFromYear_def msPerDay_def Let_def)

text \<open>
  Claim C8 at a failing input.  With the widths (3,2,2,2,2), host year 2025 and local
  time UTC, the pipeline succeeds for every bound, so no fallback is taken, and the four
  default dates lie in the years 197, 207, 192 and 212 instead of 1975, 2075, 1925 and
  2125.  The zoom limits are as claimed.
\<close>

theorem setDefaultArgs_short_year_width:
  "getFullYear 0 (startDate (setDefaultArgs 0 2025 (settingsOf 3 2 2 2 2))) = Some 197
   \<and> getFullYear 0 (endDate (setDefaultArgs 0 2025 (settingsOf 3 2 2 2 2))) = Some 207
   \<and> getFullYear 0 (minDate (setDefaultArgs 0 2025 (settingsOf 3 2 2 2 2))) = Some 192
   \<and> getFullYear 0 (maxDate (setDefaultArgs 0 2025 (settingsOf 3 2 2 2 2))) = Some 212
   \<and> max 1900 (2025 - 50) = (1975::int) \<and> (2025::int) + 50 = 2075
   \<and> max 1800 (2025 - 100) = (1925::int) \<and> (2025::int) + 100 = 2125
   \<and> zoomOutLimit (setDefaultArgs 0 2025 (settingsOf 3 2 2 2 2)) = Fin 315360000000001
   \<and> zoomInLimit (setDefaultArgs 0 2025 (settingsOf 3 2 2 2 2)) = Fin 10"
  by (simp add: setDefaultArgs_def Let_def toString_examples parse_short_year_width
      build_short_year_width getFullYear_def YearFromTime_short_year_width)

section \<open>The window that reaches the render boundary\<close>

lemma sanitized_values:
  assumes "okTz tz"
    and "opt_start w = Some ds" and "opt_end w = Some de"
    and "opt_min w = Some dmn" and "opt_max w = Some dmx"
  shows "opt_start (sanitizeViewport tz w) = Some (Some (cleanValue tz True ds))"
    and "opt_end (sanitizeViewport tz w) =
           Some (Some (if cleanValue tz True ds \<ge> cleanValue tz False de
                       then cleanValue tz True ds + oneYear else cleanValue tz False de))"
    and "opt_min (sanitizeViewport tz w) =
           Some (Some (minOf (cleanValue tz True dmn) (cleanValue tz False dmx)))"
    and "opt_max (sanitizeViewport tz w) = Some (Some (cleanValue tz False dmx))"
  using assms
  by (simp_all add: sanitizeViewport_fields validateDateField_Some sanitizedEnd_Some
      sanitizedMin_Some)

lemma oneYear_pos: "0 < oneYear"
  by (simp add: oneYear_def)

text \<open>The default window of year 2025 (1975 to 2075 visible, 1925 to 2125 pannable) with
  the default zoom limits, and the all-NaN window.\<close>

lemma sanitizeViewport_default_2025:
  "sanitizeViewport 0
     \<lparr> opt_start = Some (Some 157766400000), opt_end = Some (Some 3313526400000),
       opt_min = Some (Some (- 1420070400000)), opt_max = Some (Some 4891363200000),
       zoomMax = Fin 315360000000001, zoomMin = Fin 10 \<rparr>
   = \<lparr> opt_start = Some (Some 157766400000), opt_end = Some (Some 3313526400000),
       opt_min = Some (Some 316656000000), opt_max = Some (Some 1893456000000),
       zoomMax = Fin 315360000000001, zoomMin = Fin 10 \<rparr>"
proof -
  have tz: "okTz 0" by (simp add: okTz_def msPerDay_def)
  have c: "cleanValue 0 True (Some 157766400000) = 157766400000"
    "cleanValue 0 False (Some 3313526400000) = 3313526400000"
    "cleanValue 0 True (Some (- 1420070400000)) = - 1420070400000"
    "cleanValue 0 False (Some 4891363200000) = 1893456000000"
    by (simp_all add: cleanValue_def inRange_iff)
  have m: "minOf (- 1420070400000) 1893456000000 = 316656000000"
    by (simp add: minOf_def oneYear_def Let_def)
  show ?thesis
    by (rule TimelineOptions.equality)
       (simp_all add: sanitizeViewport_fields validateDateField_Some [OF tz]
          sanitizedEnd_Some [OF tz] sanitizedMin_Some [OF tz] c m oneYear_def
          sanitizedZoomMin_def sanitizedZoomMax_def isFiniteNum_def Let_def)
qed

lemma sanitizeViewport_all_NaN:
  "sanitizeViewport 0
     \<lparr> opt_start = Some None, opt_end = Some None, opt_min = Some None, opt_max = Some None,
       zoomMax = NaN, zoomMin = NaN \<rparr>
   = \<lparr> opt_start = Some (Some 946684800000), opt_end = Some (Some 1893456000000),
       opt_min = Some (Some 946684800000), opt_max = Some (Some 1893456000000),
       zoomMax = Fin 315360000000000, zoomMin = Fin 10 \<rparr>"
proof -
  have tz: "okTz 0" by (simp add: okTz_def msPerDay_def)
  have c: "cleanValue 0 True None = 946684800000" "cleanValue 0 False None = 1893456000000"
    by (simp_all add: cleanValue_def)
  have m: "minOf 946684800000 1893456000000 = 946684800000"
    by (simp add: minOf_def oneYear_def Let_def)
  show ?thesis
    by (rule TimelineOptions.equality)
       (simp_all add: sanitizeViewport_fields validateDateField_Some [OF tz]
          sanitizedEnd_Some [OF tz] sanitizedMin_Some [OF tz] c m oneYear_def
          sanitizedZoomMin_def sanitizedZoomMax_def isFiniteNum_def numTimes_def Let_def)
qed

text \<open>
  Claim C1, as amended.  For a host time zone offset of at most one day and a window whose
  four dates are present (valid or invalid, with any time value) and whose zoom limits
  are any numbers, the sanitized window has four valid dates within the range of time
  values, with start before end, min before max, a span from min to max of at least one
  year (365 days) and at most one hundred, and finite positive zoom limits with
  \<open>zoomMin < zoomMax\<close>.  Nothing relates min to start or max to end.
\<close>

theorem sanitizeViewport_invariants:
  assumes "okTz tz"
    and "opt_start w = Some ds" and "opt_end w = Some de"
    and "opt_min w = Some dmn" and "opt_max w = Some dmx"
  shows "\<exists>s e mn mx a b.
           opt_start (sanitizeViewport tz w) = Some (Some s)
         \<and> opt_end (sanitizeViewport tz w) = Some (Some e)
         \<and> opt_min (sanitizeViewport tz w) = Some (Some mn)
         \<and> opt_max (sanitizeViewport tz w) = Some (Some mx)
         \<and> zoomMin (sanitizeViewport tz w) = Fin a
         \<and> zoomMax (sanitizeViewport tz w) = Fin b
         \<and> s < e \<and> mn < mx \<and> oneYear \<le> mx - mn \<and> mx - mn \<le> 100 * oneYear \<and> a < b
         \<and> \<bar>s\<bar> \<le> 8640000000000000 \<and> \<bar>e\<bar> \<le> 8640000000000000
         \<and> \<bar>mn\<bar> \<le> 8640000000000000 \<and> \<bar>mx\<bar> \<le> 8640000000000000"
proof -
  define s where "s = cleanValue tz True ds"
  define e0 where "e0 = cleanValue tz False de"
  define e where "e = (if s \<ge> e0 then s + oneYear else e0)"
  define mx where "mx = cleanValue tz False dmx"
  define mn where "mn = minOf (cleanValue tz True dmn) mx"
  obtain a where a: "sanitizedZoomMin (zoomMin w) = Fin a" "0 < a"
    using sanitizedZoomMin_Fin by blast
  obtain b where b: "sanitizedZoomMax (zoomMax w) (zoomMin w) = Fin b"
      "numLess (sanitizedZoomMin (zoomMin w)) (Fin b)"
    using sanitizedZoomMax_Fin by blast
  have ab: "a < b" using a b by simp
  have rs: "inRange tz s" and re: "inRange tz e0" and rx: "inRange tz mx"
    unfolding s_def e0_def mx_def by (rule cleanValue_inRange [OF assms(1)])+
  have se: "s < e" using oneYear_pos by (simp add: e_def)
  have bs: "\<bar>s\<bar> \<le> 8640000000000000" "\<bar>e\<bar> \<le> 8640000000000000" "\<bar>mx\<bar> \<le> 8640000000000000"
    using rs re rx assms(1) unfolding e_def inRange_iff okTz_def msPerDay_def oneYear_def
    by auto
  have sp: "mn < mx" "oneYear \<le> mx - mn" "mx - mn \<le> 100 * oneYear"
    unfolding mn_def by (rule minOf_span)+
  have bm: "\<bar>mn\<bar> \<le> 8640000000000000"
    using sp rx assms(1) unfolding inRange_iff okTz_def msPerDay_def oneYear_def by linarith
  have "opt_start (sanitizeViewport tz w) = Some (Some s)"
    "opt_end (sanitizeViewport tz w) = Some (Some e)"
    "opt_min (sanitizeViewport tz w) = Some (Some mn)"
    "opt_max (sanitizeViewport tz w) = Some (Some mx)"
    unfolding s_def e_def e0_def mn_def mx_def by (rule sanitized_values [OF assms])+
  moreover have "zoomMin (sanitizeViewport tz w) = Fin a" "zoomMax (sanitizeViewport tz w) = Fin b"
    by (simp_all add: sanitizeViewport_fields a b)
  ultimately show ?thesis
    using se sp ab bs bm by blast
qed

theorem sanitizeViewport_invariants_witness:
  "sanitizeViewport 0
     \<lparr> opt_start = Some None, opt_end = Some None, opt_min = Some None, opt_max = Some None,
       zoomMax = NaN, zoomMin = NaN \<rparr>
   = \<lparr> opt_start = Some (Some 946684800000), opt_end = Some (Some 1893456000000),
       opt_min = Some (Some 946684800000), opt_max = Some (Some 1893456000000),
       zoomMax = Fin 315360000000000, zoomMin = Fin 10 \<rparr>
   \<and> (946684800000::int) < 1893456000000
   \<and> oneYear \<le> 1893456000000 - 946684800000
   \<and> 1893456000000 - 946684800000 \<le> 100 * oneYear
   \<and> (10::real) < 315360000000000"
proof -
  have tz: "okTz 0" by (simp add: okTz_def msPerDay_def)
  show ?thesis
    using sanitizeViewport_invariants [OF tz, of
        "\<lparr> opt_start = Some None, opt_end = Some None, opt_min = Some None, opt_max = Some None,
           zoomMax = NaN, zoomMin = NaN \<rparr>" None None None None]
    by (simp add: sanitizeViewport_all_NaN)
qed

text \<open>
  Claim C1 as stated fails on the window built from the default arguments of year 2025
  under the default widths (visible 1975 to 2075, pannable 1925 to 2125): it is sanitized
  to a window whose min (1980) lies after its start (1975) and whose max (2030) lies
  before its end (2075).
\<close>

theorem sanitizeViewport_invariants_counterexample:
  "sanitizeViewport 0 (optionsOfArgs (setDefaultArgs 0 2025 (settingsOf 4 2 2 2 2)))
   = \<lparr> opt_start = Some (Some 157766400000), opt_end = Some (Some 3313526400000),
       opt_min = Some (Some 316656000000), opt_max = Some (Some 1893456000000),
       zoomMax = Fin 315360000000001, zoomMin = Fin 10 \<rparr>
   \<and> \<not> (316656000000::int) \<le> 157766400000
   \<and> \<not> (1893456000000::int) \<ge> 3313526400000"
  by (simp add: default_window_2025 sanitizeViewport_default_2025)

text \<open>
  Claim C2.  For a host time zone offset of at most one day, sanitizing the output of the
  sanitizer again changes no field, whatever the input window: absent, invalid or
  valid dates with any time value, and any zoom limits.
\<close>

theorem sanitizeViewport_idempotent:
  assumes "okTz tz"
  shows "sanitizeViewport tz (sanitizeViewport tz w) = sanitizeViewport tz w"
  by (rule TimelineOptions.equality)
     (simp_all add: sanitizeViewport_fields validateDateField_idem [OF assms]
        sanitizedEnd_idem [OF assms] sanitizedMin_idem [OF assms] sanitizedZoomMin_idem
        sanitizedZoomMax_idem)

theorem sanitizeViewport_idempotent_witness:
  "sanitizeViewport 0
     (sanitizeViewport 0
        \<lparr> opt_start = Some (Some 157766400000), opt_end = Some (Some 3313526400000),
          opt_min = Some (Some (- 1420070400000)), opt_max = Some (Some 4891363200000),
          zoomMax = Fin 315360000000001, zoomMin = Fin 10 \<rparr>)
   = \<lparr> opt_start = Some (Some 157766400000), opt_end = Some (Some 3313526400000),
       opt_min = Some (Some 316656000000), opt_max = Some (Some 1893456000000),
       zoomMax = Fin 315360000000001, zoomMin = Fin 10 \<rparr>"
proof -
  have tz: "okTz 0" by (simp add: okTz_def msPerDay_def)
  show ?thesis
    using sanitizeViewport_idempotent [OF tz, of
        "\<lparr> opt_start = Some (Some 157766400000), opt_end = Some (Some 3313526400000),
           opt_min = Some (Some (- 1420070400000)), opt_max = Some (Some 4891363200000),
           zoomMax = Fin 315360000000001, zoomMin = Fin 10 \<rparr>"]
    by (simp add: sanitizeViewport_default_2025)
qed

end
